theory Spec2Isabelle
  imports Main "HOL-Library.Word"
begin

section \<open>Door opener controller (ESP8266 D1 mini sketch): data model\<close>

text \<open>
  The sketch runs on an ESP8266: \<^verbatim>\<open>unsigned long\<close> is 32 bits wide and \<^verbatim>\<open>millis()\<close>
  wraps around at \<open>2 ^ 32\<close> ms; \<^verbatim>\<open>long\<close> is a signed 32-bit integer, kept here as an
  \<open>int\<close> inside the range that \<^verbatim>\<open>atol\<close> can return.

  Conventions of the embedding:
  \<^item> the global variables of the sketch are the fields of the record \<open>state\<close>;
  \<^item> \<^verbatim>\<open>millis()\<close> reads the field \<open>clock\<close>; \<^verbatim>\<open>delay(n)\<close> advances it by \<open>n\<close>, every
    other statement is taken as instantaneous, and \<open>tick\<close> lets time pass between calls;
  \<^item> \<^verbatim>\<open>digitalWrite\<close> on a relay pin sets the pin level \<open>doorRelay\<close> / \<open>lightRelay\<close>;
  \<^item> calls into the Telegram client, the buzzer and the display are appended to the
    trace \<open>outputs\<close>;
  \<^item> the write-only diagnostic stream (\<^verbatim>\<open>Serial.print\<close>) is left out.
\<close>

type_synonym ulong = "32 word"

record LogEntry =
  timestamp :: ulong
  chatId :: int
  operation :: string
  userName :: string

datatype effect =
    SendMessage string string string
  | SendMessageWithInlineKeyboard string string string string
  | AnswerCallbackQuery string string
  | Tone nat
  | ToneFor nat nat
  | NoTone
  | Render "string list"

record state =
  clock :: ulong
  config_authorizedUsers :: string
  authorizedUsers :: "int list"
  numAuthorizedUsers :: nat
  doorOpenTime :: ulong
  lightOpenTime :: ulong
  doorRelay :: bool
  lightRelay :: bool
  buttonInterruptFlag :: bool
  lastInterruptTime :: ulong
  wifiOk :: bool
  telegramOk :: bool
  lastDisplayContent :: string
  operationLog :: "LogEntry list"
  wifi_connected :: bool
  wifi_rssi :: int
  free_heap :: nat
  outputs :: "effect list"

definition MAX_USERS_LEN :: nat where "MAX_USERS_LEN = 128"
definition MAX_USERS :: nat where "MAX_USERS = 10"
definition DOOR_TIMEOUT :: ulong where "DOOR_TIMEOUT = 1000"
definition LIGHT_TIMEOUT :: ulong where "LIGHT_TIMEOUT = 1000"
definition interruptDebounceDelay :: ulong where "interruptDebounceDelay = 100"

definition emit :: "effect \<Rightarrow> state \<Rightarrow> state" where
  "emit e s = s\<lparr>outputs := outputs s @ [e]\<rparr>"

definition tick :: "ulong \<Rightarrow> state \<Rightarrow> state" where
  "tick d s = s\<lparr>clock := clock s + d\<rparr>"

definition delay :: "ulong \<Rightarrow> state \<Rightarrow> state" where
  "delay n s = tick n s"

subsection \<open>Byte sequences of the non-ASCII characters of the sketch's texts (UTF-8)\<close>

definition emoji_info :: string where "emoji_info = [CHR 0xE2, CHR 0x84, CHR 0xB9, CHR 0xEF, CHR 0xB8, CHR 0x8F]"
definition emoji_knobs :: string where "emoji_knobs = [CHR 0xF0, CHR 0x9F, CHR 0x8E, CHR 0x9B, CHR 0xEF, CHR 0xB8, CHR 0x8F]"
definition emoji_stopwatch :: string where "emoji_stopwatch = [CHR 0xE2, CHR 0x8F, CHR 0xB1, CHR 0xEF, CHR 0xB8, CHR 0x8F]"
definition emoji_no_entry :: string where "emoji_no_entry = [CHR 0xF0, CHR 0x9F, CHR 0x9A, CHR 0xAB]"
definition emoji_cross :: string where "emoji_cross = [CHR 0xE2, CHR 0x9D, CHR 0x8C]"
definition emoji_house :: string where "emoji_house = [CHR 0xF0, CHR 0x9F, CHR 0x8F, CHR 0xA0]"
definition emoji_door :: string where "emoji_door = [CHR 0xF0, CHR 0x9F, CHR 0x9A, CHR 0xAA]"
definition emoji_bulb :: string where "emoji_bulb = [CHR 0xF0, CHR 0x9F, CHR 0x92, CHR 0xA1]"
definition emoji_clipboard :: string where "emoji_clipboard = [CHR 0xF0, CHR 0x9F, CHR 0x93, CHR 0x8B]"
definition emoji_question :: string where "emoji_question = [CHR 0xE2, CHR 0x9D, CHR 0x93]"
definition emoji_check :: string where "emoji_check = [CHR 0xE2, CHR 0x9C, CHR 0x85]"
definition emoji_clock :: string where "emoji_clock = [CHR 0xE2, CHR 0x8F, CHR 0xB0]"
definition emoji_user :: string where "emoji_user = [CHR 0xF0, CHR 0x9F, CHR 0x91, CHR 0xA4]"
definition emoji_lock :: string where "emoji_lock = [CHR 0xF0, CHR 0x9F, CHR 0x94, CHR 0x92]"
definition emoji_chart :: string where "emoji_chart = [CHR 0xF0, CHR 0x9F, CHR 0x93, CHR 0x8A]"
definition emoji_cycle :: string where "emoji_cycle = [CHR 0xF0, CHR 0x9F, CHR 0x94, CHR 0x84]"
definition bullet :: string where "bullet = [CHR 0xE2, CHR 0x80, CHR 0xA2]"
definition emoji_bars :: string where "emoji_bars = [CHR 0xF0, CHR 0x9F, CHR 0x93, CHR 0xB6]"
definition emoji_antenna :: string where "emoji_antenna = [CHR 0xF0, CHR 0x9F, CHR 0x93, CHR 0xA1]"
definition emoji_green :: string where "emoji_green = [CHR 0xF0, CHR 0x9F, CHR 0x9F, CHR 0xA2]"
definition emoji_red :: string where "emoji_red = [CHR 0xF0, CHR 0x9F, CHR 0x94, CHR 0xB4]"
definition emoji_battery :: string where "emoji_battery = [CHR 0xF0, CHR 0x9F, CHR 0x94, CHR 0x8B]"
definition emoji_users :: string where "emoji_users = [CHR 0xF0, CHR 0x9F, CHR 0x91, CHR 0xA5]"
definition nl :: string where "nl = [CHR 0x0A]"
definition dq :: string where "dq = [CHR 0x22]"
definition bq :: string where "bq = [CHR 0x60]"

subsection \<open>Decimal rendering (\<^verbatim>\<open>String(n)\<close>)\<close>

definition digit_char :: "nat \<Rightarrow> char" where
  "digit_char d = ''0123456789'' ! d"

fun String_nat :: "nat \<Rightarrow> string" where
  "String_nat n = (if n < 10 then [digit_char n] else String_nat (n div 10) @ [digit_char (n mod 10)])"

declare String_nat.simps [simp del]

definition String_int :: "int \<Rightarrow> string" where
  "String_int i = (if i < 0 then CHR ''-'' # String_nat (nat (- i)) else String_nat (nat i))"

subsection \<open>Relative times\<close>

definition formatTimeAgoShort :: "ulong \<Rightarrow> string" where
  "formatTimeAgoShort ago =
     (let seconds = unat ago div 1000 in
      if seconds < 60 then String_nat seconds @ ''s ''
      else let minutes = seconds div 60 in
      if minutes < 60 then String_nat minutes @ ''m ''
      else let hours = minutes div 60 in
      if hours < 24 then String_nat hours @ ''h ''
      else let days = hours div 24 in String_nat days @ ''g '')"

definition formatTimeAgo :: "ulong \<Rightarrow> string" where
  "formatTimeAgo ago =
     (let seconds = unat ago div 1000 in
      if seconds < 60 then String_nat seconds @ '' seconds ago''
      else let minutes = seconds div 60 in
      if minutes < 60 then String_nat minutes @ '' minutes ago''
      else let hours = minutes div 60 in
      if hours < 24 then String_nat hours @ '' hours ago''
      else let days = hours div 24 in String_nat days @ '' days ago'')"

definition formatUptime :: "ulong \<Rightarrow> string" where
  "formatUptime milliseconds =
     (let seconds = unat milliseconds div 1000;
          minutes = seconds div 60;
          hours = minutes div 60;
          days = hours div 24
      in (if days > 0 then String_nat days @ ''d '' else [])
         @ (if hours mod 24 > 0 then String_nat (hours mod 24) @ ''h '' else [])
         @ (if minutes mod 60 > 0 then String_nat (minutes mod 60) @ ''m '' else [])
         @ String_nat (seconds mod 60) @ ''s'')"

subsection \<open>Local display\<close>

definition getShortLogLine :: "nat \<Rightarrow> state \<Rightarrow> string" where
  "getShortLogLine idx s =
     (let e = operationLog s ! idx in
      if timestamp e = 0 then []
      else let action = (if operation e = ''LIGHT_ON'' then ''Light''
                         else if operation e = ''DOOR_BUTTON'' then ''Door''
                         else ''Door'')
           in userName e @ '' '' @ action @ '' '' @ formatTimeAgoShort (clock s - timestamp e))"

definition getConnStatusLine :: "state \<Rightarrow> string" where
  "getConnStatusLine s =
     (if wifiOk s then ''WiFi:OK'' else ''WiFi:--'') @ '' ''
     @ (if telegramOk s then ''TG:OK'' else ''TG:--'')"

definition updateDisplay :: "state \<Rightarrow> state" where
  "updateDisplay s =
     (let line1 = ''D1 Mini Door Opener'';
          line2 = getShortLogLine 0 s;
          line3 = getShortLogLine 1 s;
          line4 = getShortLogLine 2 s;
          line5 = getShortLogLine 3 s;
          line6 = getConnStatusLine s;
          displayContent = line1 @ ''|'' @ line2 @ ''|'' @ line3 @ ''|'' @ line4 @ ''|''
                           @ line5 @ ''|'' @ line6
      in if displayContent = lastDisplayContent s then s
         else emit (Render [line1, line2, line3, line4, line5, getConnStatusLine s])
                (s\<lparr>lastDisplayContent := displayContent\<rparr>))"

subsection \<open>Operation history\<close>

definition empty_entry :: LogEntry where
  "empty_entry = \<lparr>timestamp = 0, chatId = 0, operation = [], userName = []\<rparr>"

definition initializeLog :: "state \<Rightarrow> state" where
  "initializeLog s = s\<lparr>operationLog := replicate 5 empty_entry\<rparr>"

text \<open>The loop \<^verbatim>\<open>for (int i = 4; i > 0; i--) operationLog[i] = operationLog[i - 1];\<close>\<close>

fun shift_down :: "nat \<Rightarrow> LogEntry list \<Rightarrow> LogEntry list" where
  "shift_down 0 lg = lg"
| "shift_down (Suc i) lg = shift_down i (lg[Suc i := lg ! i])"

definition logOperation :: "int \<Rightarrow> string \<Rightarrow> string \<Rightarrow> state \<Rightarrow> state" where
  "logOperation cid opn uname s =
     (let lg = shift_down 4 (operationLog s);
          lg' = lg[0 := \<lparr>timestamp = clock s, chatId = cid, operation = opn, userName = uname\<rparr>]
      in updateDisplay (s\<lparr>operationLog := lg'\<rparr>))"


definition valid_entry :: "LogEntry \<Rightarrow> bool" where
  "valid_entry e = (timestamp e > 0)"

text \<open>One block of the detailed log, the body of the second loop of \<^verbatim>\<open>getFormattedLog\<close>.\<close>

definition log_block :: "ulong \<Rightarrow> LogEntry \<Rightarrow> string" where
  "log_block now e =
     (let timeAgo = formatTimeAgo (now - timestamp e);
          emoji = (if operation e = ''LIGHT_ON'' then emoji_bulb else emoji_door);
          operationName = (if operation e = ''LIGHT_ON'' then ''LIGHT ON'' else ''DOOR OPENED'')
      in bullet @ '' '' @ emoji @ '' '' @ operationName @ nl
         @ ''  '' @ emoji_user @ '' '' @ userName e @ nl
         @ ''  '' @ emoji_clock @ '' '' @ timeAgo @ nl @ nl)"

definition getFormattedLog :: "state \<Rightarrow> string" where
  "getFormattedLog s =
     (let logStr = emoji_clipboard @ '' *Operations Log*'' @ nl @ nl;
          validEntries = length (filter valid_entry (take 5 (operationLog s)))
      in if validEntries = 0 then logStr @ ''No operations recorded.''
         else logStr @ concat (map (\<lambda>i. log_block (clock s) (operationLog s ! i)) [0..<validEntries]))"

subsection \<open>Authorization registry\<close>

text \<open>
  \<^verbatim>\<open>atol\<close> of the C library (newlib: \<^verbatim>\<open>strtol(s, NULL, 10)\<close>): leading white space is
  skipped, an optional sign is read, then the longest run of decimal digits; the result
  saturates at the bounds of \<^verbatim>\<open>long\<close>. With no digit the result is 0.
\<close>

definition LONG_MAX :: int where "LONG_MAX = 2147483647"
definition LONG_MIN :: int where "LONG_MIN = - 2147483648"

definition isspace :: "char \<Rightarrow> bool" where
  "isspace c = (c \<in> set [CHR 0x20, CHR 0x09, CHR 0x0A, CHR 0x0B, CHR 0x0C, CHR 0x0D])"

definition isdigit :: "char \<Rightarrow> bool" where
  "isdigit c = (c \<in> set ''0123456789'')"

definition digit_value :: "char \<Rightarrow> nat" where
  "digit_value c = (of_char c :: nat) - 48"

fun digits_value :: "nat \<Rightarrow> string \<Rightarrow> nat" where
  "digits_value acc [] = acc"
| "digits_value acc (c # cs) =
     (if isdigit c then digits_value (acc * 10 + digit_value c) cs else acc)"

definition atol :: "string \<Rightarrow> int" where
  "atol str =
     (case dropWhile isspace str of
        [] \<Rightarrow> 0
      | c # cs \<Rightarrow>
          if c = CHR ''-'' then max LONG_MIN (- int (digits_value 0 cs))
          else if c = CHR ''+'' then min LONG_MAX (int (digits_value 0 cs))
          else min LONG_MAX (int (digits_value 0 (c # cs))))"

text \<open>
  \<^verbatim>\<open>strtok(p, ",")\<close> on the rest of the buffer: \<open>None\<close> is the \<^verbatim>\<open>NULL\<close> result, otherwise
  the token and the rest of the buffer behind the delimiter that ended it.
\<close>

definition is_comma :: "char \<Rightarrow> bool" where
  "is_comma c = (c = CHR '','')"

definition strtok :: "string \<Rightarrow> (string \<times> string) option" where
  "strtok buf =
     (let start = dropWhile is_comma buf in
      if start = [] then None
      else Some (takeWhile (\<lambda>c. \<not> is_comma c) start,
                 drop 1 (dropWhile (\<lambda>c. \<not> is_comma c) start)))"

text \<open>\<^verbatim>\<open>strncpy(usersCopy, src, n)\<close> followed by the terminating NUL at index \<open>n\<close>.\<close>

definition strncpy :: "nat \<Rightarrow> string \<Rightarrow> string" where
  "strncpy n src = take n (takeWhile (\<lambda>c. c \<noteq> CHR 0x00) src)"

text \<open>The loop \<^verbatim>\<open>while (token != NULL && numAuthorizedUsers < MAX_USERS)\<close>.\<close>

function parse_loop :: "string \<Rightarrow> state \<Rightarrow> state" where
  "parse_loop buf s =
     (case strtok buf of
        None \<Rightarrow> s
      | Some (token, rest) \<Rightarrow>
          if numAuthorizedUsers s < MAX_USERS
          then parse_loop rest
                 (s\<lparr>authorizedUsers := (authorizedUsers s)[numAuthorizedUsers s := atol token],
                    numAuthorizedUsers := numAuthorizedUsers s + 1\<rparr>)
          else s)"
  by pat_completeness auto
termination
proof (relation "measure (\<lambda>(buf, s). length buf)")
  show "wf (measure (\<lambda>(buf, s). length buf))" by simp
next
  fix buf :: string and s :: state and x2 token rest
  assume a: "strtok buf = Some x2" "(token, rest) = x2"
  define start where "start = dropWhile is_comma buf"
  from a have ne: "start \<noteq> []" and r: "rest = drop 1 (dropWhile (\<lambda>c. \<not> is_comma c) start)"
    by (auto simp: strtok_def Let_def start_def split: if_splits)
  have "length (dropWhile (\<lambda>c. \<not> is_comma c) start) \<le> length start"
    by (rule length_dropWhile_le)
  with ne r have "length rest < length start"
    by (cases "dropWhile (\<lambda>c. \<not> is_comma c) start") auto
  moreover have "length start \<le> length buf"
    unfolding start_def by (rule length_dropWhile_le)
  ultimately show "((rest, s\<lparr>authorizedUsers := (authorizedUsers s)[numAuthorizedUsers s := atol token],
                    numAuthorizedUsers := numAuthorizedUsers s + 1\<rparr>), buf, s)
        \<in> measure (\<lambda>(buf, s). length buf)" by simp
qed

declare parse_loop.simps [simp del]

definition parseAuthorizedUsers :: "state \<Rightarrow> state" where
  "parseAuthorizedUsers s =
     parse_loop (strncpy (MAX_USERS_LEN - 1) (config_authorizedUsers s))
       (s\<lparr>numAuthorizedUsers := 0\<rparr>)"

text \<open>The loop \<^verbatim>\<open>for (int i = 0; i < numAuthorizedUsers; i++)\<close> with its early return.\<close>

function isAuthorizedUser_from :: "nat \<Rightarrow> int \<Rightarrow> state \<Rightarrow> bool" where
  "isAuthorizedUser_from i cid s =
     (if i < numAuthorizedUsers s
      then (if authorizedUsers s ! i = cid then True else isAuthorizedUser_from (i + 1) cid s)
      else False)"
  by pat_completeness auto
termination
  by (relation "measure (\<lambda>(i, cid, s). numAuthorizedUsers s - i)") auto

declare isAuthorizedUser_from.simps [simp del]

definition isAuthorizedUser :: "int \<Rightarrow> state \<Rightarrow> bool" where
  "isAuthorizedUser cid s = isAuthorizedUser_from 0 cid s"

subsection \<open>Status report\<close>

definition getDetailedSystemStatus :: "state \<Rightarrow> string" where
  "getDetailedSystemStatus s =
     emoji_info @ '' *Door Opener System Status*'' @ nl @ nl
     @ ''*Connectivity:*'' @ nl
     @ emoji_bars @ '' WiFi: ''
       @ (if wifi_connected s then emoji_check @ '' Connected'' else emoji_cross @ '' Disconnected'') @ nl
     @ emoji_antenna @ '' Signal: '' @ String_int (wifi_rssi s) @ '' dBm'' @ nl @ nl
     @ ''*Devices:*'' @ nl
     @ emoji_door @ '' Door: ''
       @ (if doorOpenTime s > 0 then emoji_green @ '' Open'' else emoji_red @ '' Closed'') @ nl
     @ emoji_bulb @ '' Light: ''
       @ (if lightOpenTime s > 0 then emoji_green @ '' Turned on'' else emoji_red @ '' Turned off'') @ nl @ nl
     @ ''*System:*'' @ nl
     @ emoji_stopwatch @ '' Uptime: '' @ formatUptime (clock s) @ nl
     @ emoji_battery @ '' Free memory: '' @ String_nat (free_heap s) @ '' bytes'' @ nl
     @ emoji_users @ '' Authorized users: '' @ String_nat (numAuthorizedUsers s)"

subsection \<open>Relay control and timeouts\<close>

definition openDoor :: "state \<Rightarrow> state" where
  "openDoor s = s\<lparr>doorRelay := True, doorOpenTime := clock s\<rparr>"

definition lightOn :: "state \<Rightarrow> state" where
  "lightOn s = s\<lparr>lightRelay := True, lightOpenTime := clock s\<rparr>"

definition handleTimeouts :: "state \<Rightarrow> state" where
  "handleTimeouts s =
     (let s1 = (if doorOpenTime s > 0 \<and> clock s - doorOpenTime s > DOOR_TIMEOUT
                then s\<lparr>doorRelay := False, doorOpenTime := 0\<rparr> else s)
      in if lightOpenTime s1 > 0 \<and> clock s1 - lightOpenTime s1 > LIGHT_TIMEOUT
         then s1\<lparr>lightRelay := False, lightOpenTime := 0\<rparr> else s1)"

subsection \<open>Debounced button\<close>

definition buttonISR :: "state \<Rightarrow> state" where
  "buttonISR s =
     (let now = clock s in
      if now - lastInterruptTime s > interruptDebounceDelay
      then s\<lparr>buttonInterruptFlag := True, lastInterruptTime := now\<rparr>
      else s)"

subsection \<open>Sound feedback\<close>

text \<open>The loop \<^verbatim>\<open>tone(BUZZER_PIN, melody[i], duration[i]); delay(250);\<close> over a melody.\<close>

fun play_melody :: "(nat \<times> nat) list \<Rightarrow> state \<Rightarrow> state" where
  "play_melody [] s = s"
| "play_melody ((freq, dur) # notes) s = play_melody notes (delay 250 (emit (ToneFor freq dur) s))"

definition confirmationBeep :: "state \<Rightarrow> state" where
  "confirmationBeep s =
     emit NoTone (play_melody [(587, 200), (659, 200), (523, 200), (262, 200), (392, 800)] s)"

definition errorBeep :: "state \<Rightarrow> state" where
  "errorBeep s =
     (let s1 = delay 100 (emit (Tone 1000) s);
          s2 = delay 80 (emit NoTone s1);
          s3 = delay 100 (emit (Tone 1500) s2)
      in emit NoTone s3)"

subsection \<open>Telegram client calls\<close>

record telegramMessage =
  m_type :: string
  m_chat_id :: string
  m_text :: string
  m_from_name :: string
  m_query_id :: string

definition sendMessage :: "string \<Rightarrow> string \<Rightarrow> string \<Rightarrow> state \<Rightarrow> state" where
  "sendMessage chat txt mode s = emit (SendMessage chat txt mode) s"

definition answerCallbackQuery :: "string \<Rightarrow> string \<Rightarrow> state \<Rightarrow> state" where
  "answerCallbackQuery qid txt s = emit (AnswerCallbackQuery qid txt) s"

definition sendMessageWithInlineKeyboard ::
    "string \<Rightarrow> string \<Rightarrow> string \<Rightarrow> string \<Rightarrow> state \<Rightarrow> state" where
  "sendMessageWithInlineKeyboard chat txt mode keyboard s =
     emit (SendMessageWithInlineKeyboard chat txt mode keyboard) s"

text \<open>\<^verbatim>\<open>String::toInt()\<close> of the Arduino core returns \<^verbatim>\<open>atol\<close> of the buffer.\<close>

definition toInt :: "string \<Rightarrow> int" where
  "toInt str = atol str"

subsection \<open>Menu and command handlers\<close>

definition sendMainMenu :: "string \<Rightarrow> state \<Rightarrow> state" where
  "sendMainMenu chat s =
     (let menuText = emoji_knobs @ '' *Door Opener Control Menu*'' @ nl @ nl
            @ ''Choose an action using the buttons below:'';
          keyboard =
            ''[[{'' @ dq @ ''text'' @ dq @ '':'' @ dq @ emoji_door @ '' Open Door'' @ dq @ '','' @ dq @ ''callback_data'' @ dq @ '':'' @ dq @ ''OPEN_DOOR'' @ dq @ ''}],''
            @ ''[{'' @ dq @ ''text'' @ dq @ '':'' @ dq @ emoji_bulb @ '' Turn on Light'' @ dq @ '','' @ dq @ ''callback_data'' @ dq @ '':'' @ dq @ ''LIGHT_ON'' @ dq @ ''}],''
            @ ''[{'' @ dq @ ''text'' @ dq @ '':'' @ dq @ emoji_info @ '' System Status'' @ dq @ '','' @ dq @ ''callback_data'' @ dq @ '':'' @ dq @ ''STATE_SYSTEM'' @ dq @ ''},''
            @ ''{'' @ dq @ ''text'' @ dq @ '':'' @ dq @ emoji_clipboard @ '' Show Log'' @ dq @ '','' @ dq @ ''callback_data'' @ dq @ '':'' @ dq @ ''SHOW_LOG'' @ dq @ ''}],''
            @ ''[{'' @ dq @ ''text'' @ dq @ '':'' @ dq @ emoji_question @ '' Help'' @ dq @ '','' @ dq @ ''callback_data'' @ dq @ '':'' @ dq @ ''HELP'' @ dq @ ''}]]''
      in sendMessageWithInlineKeyboard chat menuText ''Markdown'' keyboard s)"

definition sendWelcomeMessage :: "string \<Rightarrow> state \<Rightarrow> state" where
  "sendWelcomeMessage chat s =
     (let welcome = emoji_house @ '' *Welcome to the Door Opener System*'' @ nl @ nl
            @ ''The system is up and running and ready to use.'' @ nl @ nl
            @ ''Use the buttons below to control the system or type in commands manually. '' @ nl @ nl
            @ ''*Text commands available: *'' @ nl
            @ emoji_door @ '' /open - Opens the front door'' @ nl
            @ emoji_bulb @ '' /light - Turns on stair light'' @ nl
            @ emoji_info @ '' /status - System status'' @ nl
            @ emoji_clipboard @ '' /log - Operations log'' @ nl
            @ emoji_knobs @ '' /menu - Show menu buttons'' @ nl
            @ emoji_question @ '' /help - Complete guide'' @ nl
            @ ''_Secure system with access control_'';
          s1 = sendMessage chat welcome ''Markdown'' s;
          s2 = delay 500 s1
      in sendMainMenu chat s2)"

definition handleOpenDoor :: "string \<Rightarrow> string \<Rightarrow> int \<Rightarrow> state \<Rightarrow> state" where
  "handleOpenDoor chat from_name user_id s =
     (let s1 = openDoor s;
          message = emoji_door @ '' *Open Door*'' @ nl @ nl
            @ emoji_check @ '' Command executed successfully'' @ nl
            @ emoji_clock @ '' The door has been OPENED'' @ nl
            @ emoji_user @ '' Requested by: '' @ from_name;
          s2 = sendMessage chat message ''Markdown'' s1;
          s3 = logOperation user_id ''OPEN_DOOR'' from_name s2;
          s4 = updateDisplay s3;
          s5 = confirmationBeep s4;
          s6 = delay 2000 s5
      in sendMainMenu chat s6)"

definition handleTurnOnLight :: "string \<Rightarrow> string \<Rightarrow> int \<Rightarrow> state \<Rightarrow> state" where
  "handleTurnOnLight chat from_name user_id s =
     (let s1 = lightOn s;
          message = emoji_bulb @ '' *Light On*'' @ nl @ nl
            @ emoji_check @ '' Staircase light on'' @ nl
            @ emoji_clock @ '' It will automatically turn off in few seconds'' @ nl
            @ emoji_user @ '' Requested by: '' @ from_name;
          s2 = sendMessage chat message ''Markdown'' s1;
          s3 = logOperation user_id ''LIGHT_ON'' from_name s2;
          s4 = updateDisplay s3;
          s5 = confirmationBeep s4;
          s6 = delay 2000 s5
      in sendMainMenu chat s6)"

definition handleStateSystem :: "string \<Rightarrow> state \<Rightarrow> state" where
  "handleStateSystem chat s =
     (let status = getDetailedSystemStatus s;
          s1 = sendMessage chat status ''Markdown'' s;
          s2 = delay 1000 s1
      in sendMainMenu chat s2)"

definition handleShowLog :: "string \<Rightarrow> state \<Rightarrow> state" where
  "handleShowLog chat s =
     (let logStr = getFormattedLog s;
          s1 = sendMessage chat logStr ''Markdown'' s;
          s2 = delay 1000 s1
      in sendMainMenu chat s2)"

definition sendHelpMessage :: "string \<Rightarrow> state \<Rightarrow> state" where
  "sendHelpMessage chat s =
     (let help = emoji_question @ '' *Door Opener System Control Guide*'' @ nl @ nl
            @ ''*Main Commands:*'' @ nl
            @ emoji_door @ '' '' @ bq @ ''/open'' @ bq @ '' - Opens the door'' @ nl
            @ emoji_bulb @ '' '' @ bq @ ''/light'' @ bq @ '' - Turns on stair light'' @ nl
            @ ''*Information Commands:*'' @ nl
            @ emoji_info @ '' '' @ bq @ ''/status'' @ bq @ '' - Full system status'' @ nl
            @ emoji_clipboard @ '' '' @ bq @ ''/log'' @ bq @ '' - Latest operation logs'' @ nl
            @ emoji_question @ '' '' @ bq @ ''/help'' @ bq @ '' - This guide'' @ nl @ nl
            @ ''*Security:*'' @ nl
            @ emoji_lock @ '' Only authorized users can use the system'' @ nl
            @ emoji_chart @ '' Only the last 5 transactions are recorded'' @ nl
            @ emoji_cycle @ '' Automatic release Relay for safety'';
          s1 = sendMessage chat help ''Markdown'' s;
          s2 = delay 1000 s1
      in sendMainMenu chat s2)"

definition handleUnknownCommand :: "string \<Rightarrow> state \<Rightarrow> state" where
  "handleUnknownCommand chat s =
     (let message = emoji_question @ '' *Command Not Recognized*'' @ nl @ nl
            @ ''The entered command is invalid.'' @ nl
            @ ''Use /help to see all available commands or /menu for buttons.''
      in sendMessage chat message ''Markdown'' s)"

definition access_denied_text :: string where
  "access_denied_text = emoji_no_entry @ '' *Access Denied*'' @ nl @ nl
     @ ''You are not authorized to use this system.'' @ nl
     @ ''Contact the administrator to request access.''"

definition handleUnauthorizedUser :: "string \<Rightarrow> string \<Rightarrow> state \<Rightarrow> state" where
  "handleUnauthorizedUser chat from_name s =
     (let message = access_denied_text;
          s1 = sendMessage chat message ''Markdown'' s
      in errorBeep s1)"

definition handleOpenDoorCallback :: "string \<Rightarrow> string \<Rightarrow> int \<Rightarrow> string \<Rightarrow> state \<Rightarrow> state" where
  "handleOpenDoorCallback chat from_name user_id qid s =
     (let s1 = openDoor s;
          s2 = answerCallbackQuery qid (emoji_door @ '' Door Open! Door Opener Pressed!'') s1;
          message = emoji_door @ '' *Open Door!*'' @ nl @ nl
            @ emoji_check @ '' Command executed successfully'' @ nl
            @ emoji_clock @ '' The door has been opened!'' @ nl
            @ emoji_user @ '' Requested by: '' @ from_name;
          s3 = sendMessage chat message ''Markdown'' s2;
          s4 = logOperation user_id ''OPEN_DOOR'' from_name s3;
          s5 = updateDisplay s4;
          s6 = confirmationBeep s5
      in sendMainMenu chat s6)"

definition handleLightOnCallback :: "string \<Rightarrow> string \<Rightarrow> int \<Rightarrow> string \<Rightarrow> state \<Rightarrow> state" where
  "handleLightOnCallback chat from_name user_id qid s =
     (let s1 = lightOn s;
          s2 = answerCallbackQuery qid (emoji_bulb @ '' Light On. It will automatically turn off'') s1;
          message = emoji_bulb @ '' *Light On*'' @ nl @ nl
            @ emoji_check @ '' Staircase light on'' @ nl
            @ emoji_clock @ '' It will turn off automatically!'' @ nl
            @ emoji_user @ '' Requested by: '' @ from_name;
          s3 = sendMessage chat message ''Markdown'' s2;
          s4 = logOperation user_id ''LIGHT_ON'' from_name s3;
          s5 = updateDisplay s4;
          s6 = confirmationBeep s5;
          s7 = delay 1000 s6
      in sendMainMenu chat s7)"

definition handleStateSystemCallback :: "string \<Rightarrow> string \<Rightarrow> state \<Rightarrow> state" where
  "handleStateSystemCallback chat qid s =
     (let s1 = answerCallbackQuery qid (emoji_chart @ '' Retrieving system status...'') s;
          status = getDetailedSystemStatus s1;
          s2 = sendMessage chat status ''Markdown'' s1;
          s3 = delay 1000 s2
      in sendMainMenu chat s3)"

definition handleShowLogCallback :: "string \<Rightarrow> string \<Rightarrow> state \<Rightarrow> state" where
  "handleShowLogCallback chat qid s =
     (let s1 = answerCallbackQuery qid (emoji_clipboard @ '' Retrieval log operations...'') s;
          logStr = getFormattedLog s1;
          s2 = sendMessage chat logStr ''Markdown'' s1;
          s3 = delay 1000 s2
      in sendMainMenu chat s3)"

definition handleHelpCallback :: "string \<Rightarrow> string \<Rightarrow> state \<Rightarrow> state" where
  "handleHelpCallback chat qid s =
     sendHelpMessage chat (answerCallbackQuery qid (emoji_question @ '' Command guide...'') s)"

subsection \<open>Command dispatcher\<close>

definition processCommand :: "string \<Rightarrow> string \<Rightarrow> string \<Rightarrow> int \<Rightarrow> state \<Rightarrow> state" where
  "processCommand chat txt from_name user_id s =
     (if txt = ''/start'' then sendWelcomeMessage chat s
      else if txt = ''/open'' then handleOpenDoor chat from_name user_id s
      else if txt = ''/light'' then handleTurnOnLight chat from_name user_id s
      else if txt = ''/status'' then handleStateSystem chat s
      else if txt = ''/log'' then handleShowLog chat s
      else if txt = ''/help'' then sendHelpMessage chat s
      else if txt = ''/menu'' then sendMainMenu chat s
      else handleUnknownCommand chat s)"

definition processCallback ::
    "string \<Rightarrow> string \<Rightarrow> string \<Rightarrow> int \<Rightarrow> string \<Rightarrow> state \<Rightarrow> state" where
  "processCallback chat callback_data from_name user_id qid s =
     (if callback_data = ''OPEN_DOOR'' then handleOpenDoorCallback chat from_name user_id qid s
      else if callback_data = ''LIGHT_ON'' then handleLightOnCallback chat from_name user_id qid s
      else if callback_data = ''STATE_SYSTEM'' then handleStateSystemCallback chat qid s
      else if callback_data = ''SHOW_LOG'' then handleShowLogCallback chat qid s
      else if callback_data = ''HELP'' then handleHelpCallback chat qid s
      else answerCallbackQuery qid (emoji_cross @ '' Unrecognized command'') s)"

text \<open>The body of the loop of \<^verbatim>\<open>handleNewMessages\<close>, for one entry of \<^verbatim>\<open>bot.messages\<close>.\<close>

definition handleNewMessage :: "telegramMessage \<Rightarrow> state \<Rightarrow> state" where
  "handleNewMessage m s =
     (if m_type m = ''message'' then
        (let chat = m_chat_id m; txt = m_text m; from_name = m_from_name m;
             user_id = toInt chat
         in if \<not> isAuthorizedUser user_id s then handleUnauthorizedUser chat from_name s
            else processCommand chat txt from_name user_id s)
      else if m_type m = ''callback_query'' then
        (let chat = m_chat_id m; callback_data = m_text m; from_name = m_from_name m;
             callback_query_id = m_query_id m; user_id = toInt chat
         in if \<not> isAuthorizedUser user_id s
            then answerCallbackQuery callback_query_id ''Unauthorized'' s
            else processCallback chat callback_data from_name user_id callback_query_id s)
      else s)"

fun handleNewMessages :: "telegramMessage list \<Rightarrow> state \<Rightarrow> state" where
  "handleNewMessages [] s = s"
| "handleNewMessages (m # ms) s = handleNewMessages ms (handleNewMessage m s)"

subsection \<open>Physical button\<close>

definition openDoorFromButton :: "state \<Rightarrow> state" where
  "openDoorFromButton s =
     (let s1 = s\<lparr>buttonInterruptFlag := False\<rparr>;
          s2 = openDoor s1;
          s3 = logOperation 0 ''DOOR_BUTTON'' ''Button'' s2;
          s4 = confirmationBeep s3
      in updateDisplay s4)"

definition checkButtonOpenDoor :: "state \<Rightarrow> state" where
  "checkButtonOpenDoor s =
     (if buttonInterruptFlag s then openDoorFromButton (s\<lparr>buttonInterruptFlag := False\<rparr>) else s)"

subsection \<open>Scenario drivers\<close>

text \<open>
  A sequence of appends to the history: each call \<open>(d, cid, opn, uname)\<close> lets \<open>d\<close>
  milliseconds pass and then runs \<^verbatim>\<open>logOperation(cid, opn, uname)\<close>.
\<close>

fun append_calls :: "(ulong \<times> int \<times> string \<times> string) list \<Rightarrow> state \<Rightarrow> state" where
  "append_calls [] s = s"
| "append_calls ((d, cid, opn, uname) # cs) s = append_calls cs (logOperation cid opn uname (tick d s))"

text \<open>The global variables as the C runtime initialises them, with a stored configuration string.\<close>

definition startup_state :: "string \<Rightarrow> state" where
  "startup_state cfg =
     \<lparr>clock = 0, config_authorizedUsers = cfg, authorizedUsers = replicate 10 0,
      numAuthorizedUsers = 0, doorOpenTime = 0, lightOpenTime = 0, doorRelay = False,
      lightRelay = False, buttonInterruptFlag = False, lastInterruptTime = 0, wifiOk = False,
      telegramOk = False, lastDisplayContent = [], operationLog = replicate 5 empty_entry,
      wifi_connected = False, wifi_rssi = 0, free_heap = 0, outputs = []\<rparr>"

text \<open>
  The registry as the specification words it: the raw string is split on commas, the
  non-empty tokens are converted in order, and at most the first ten are kept.
\<close>

fun split_commas :: "string \<Rightarrow> string list" where
  "split_commas [] = [[]]"
| "split_commas (c # cs) =
     (if c = CHR '','' then [] # split_commas cs
      else (case split_commas cs of t # ts \<Rightarrow> (c # t) # ts | [] \<Rightarrow> [[c]]))"

definition spec_tokens :: "string \<Rightarrow> string list" where
  "spec_tokens raw = filter (\<lambda>t. t \<noteq> []) (split_commas raw)"

definition spec_load :: "string \<Rightarrow> int list" where
  "spec_load raw = take 10 (map atol (spec_tokens raw))"

text \<open>A token with no decimal digit where \<^verbatim>\<open>atol\<close> expects the number to begin.\<close>

definition non_numeric :: "string \<Rightarrow> bool" where
  "non_numeric tok =
     (case dropWhile isspace tok of
        [] \<Rightarrow> True
      | c # cs \<Rightarrow> if c = CHR ''-'' \<or> c = CHR ''+''
                  then (case cs of [] \<Rightarrow> True | d # _ \<Rightarrow> \<not> isdigit d)
                  else \<not> isdigit c)"

text \<open>
  Sequences of activations, timeout sweeps and waiting, for the relay pulses; the state
  invariant of the two actuators (pin level on exactly when the timestamp is set).
\<close>

datatype action = ActivateDoor | ActivateLight | Sweep | Wait ulong

fun run_action :: "action \<Rightarrow> state \<Rightarrow> state" where
  "run_action ActivateDoor s = openDoor s"
| "run_action ActivateLight s = lightOn s"
| "run_action Sweep s = handleTimeouts s"
| "run_action (Wait d) s = tick d s"

fun run_actions :: "action list \<Rightarrow> state \<Rightarrow> state" where
  "run_actions [] s = s"
| "run_actions (a # as) s = run_actions as (run_action a s)"

definition actuator_inv :: "state \<Rightarrow> bool" where
  "actuator_inv s = ((doorRelay s \<longleftrightarrow> doorOpenTime s \<noteq> 0) \<and> (lightRelay s \<longleftrightarrow> lightOpenTime s \<noteq> 0))"

text \<open>
  The outbound Telegram traffic in the trace, and a simulated train of button edges: each
  element is the time since the previous edge, and an edge counts when the interrupt
  routine sets the pending flag for it.
\<close>

fun is_remote :: "effect \<Rightarrow> bool" where
  "is_remote (SendMessage chat txt mode) = True"
| "is_remote (SendMessageWithInlineKeyboard chat txt mode keyboard) = True"
| "is_remote (AnswerCallbackQuery qid txt) = True"
| "is_remote (Tone freq) = False"
| "is_remote (ToneFor freq dur) = False"
| "is_remote NoTone = False"
| "is_remote (Render ls) = False"

definition remote_outputs :: "state \<Rightarrow> effect list" where
  "remote_outputs s = filter is_remote (outputs s)"

definition edge_accepted :: "state \<Rightarrow> bool" where
  "edge_accepted s = buttonInterruptFlag (buttonISR (s\<lparr>buttonInterruptFlag := False\<rparr>))"

fun accepted_edges :: "ulong list \<Rightarrow> state \<Rightarrow> nat" where
  "accepted_edges [] s = 0"
| "accepted_edges (d # ds) s =
     (if edge_accepted (tick d s) then 1 else 0) + accepted_edges ds (buttonISR (tick d s))"

text \<open>
  Example inputs: a registry loaded from the string \<open>111\<close>, a text message and a callback
  from the id 999, and a history of four appends of which the second one happens in the
  millisecond in which \<^verbatim>\<open>millis()\<close> has wrapped to 0, read 1100 ms after the last append.
\<close>

definition registry_111 :: state where
  "registry_111 = parseAuthorizedUsers (startup_state ''111'')"

definition unauthorized_text :: telegramMessage where
  "unauthorized_text =
     \<lparr>m_type = ''message'', m_chat_id = ''999'', m_text = ''/open'', m_from_name = ''Eve'',
      m_query_id = []\<rparr>"

definition unauthorized_callback :: telegramMessage where
  "unauthorized_callback =
     \<lparr>m_type = ''callback_query'', m_chat_id = ''999'', m_text = ''OPEN_DOOR'',
      m_from_name = ''Eve'', m_query_id = ''q1''\<rparr>"

definition history_with_gap :: state where
  "history_with_gap =
     tick 1100
       (append_calls
          [(0, 111, ''OPEN_DOOR'', ''Alice''),
           (1000, 222, ''LIGHT_ON'', ''Bob''),
           (500, 111, ''OPEN_DOOR'', ''Alice''),
           (400, 0, ''DOOR_BUTTON'', ''Button'')]
          (initializeLog ((startup_state [])\<lparr>clock := 4294966296\<rparr>)))"

text \<open>The heading that \<^verbatim>\<open>getFormattedLog\<close> puts in front of every answer.\<close>

definition log_header :: string where
  "log_header = emoji_clipboard @ '' *Operations Log*'' @ nl @ nl"

text \<open>
  Further example inputs: a registry loaded from the single id 6123456789, which does not
  fit a 32-bit \<^verbatim>\<open>long\<close>; a train of button edges whose gaps are true elapsed milliseconds
  (the counter wraps while they pass); and the state after one press of the physical
  button at \<^verbatim>\<open>millis() = 5000\<close>.
\<close>

definition registry_big :: state where
  "registry_big = parseAuthorizedUsers (startup_state ''6123456789'')"

definition accepted_edges_ms :: "nat list \<Rightarrow> state \<Rightarrow> nat" where
  "accepted_edges_ms gaps s = accepted_edges (map of_nat gaps) s"

text \<open>The layout of one entry of the detailed log, with its emoji and label as parameters.\<close>

definition entry_block :: "string \<Rightarrow> string \<Rightarrow> string \<Rightarrow> string \<Rightarrow> string" where
  "entry_block emoji label name ago =
     bullet @ '' '' @ emoji @ '' '' @ label @ nl
     @ ''  '' @ emoji_user @ '' '' @ name @ nl
     @ ''  '' @ emoji_clock @ '' '' @ ago @ nl @ nl"

definition after_button_press :: state where
  "after_button_press = checkButtonOpenDoor (buttonISR ((startup_state [])\<lparr>clock := 5000\<rparr>))"

section \<open>Properties\<close>

subsection \<open>Operation history\<close>

lemma list5: "length (xs::'a list) = 5 \<Longrightarrow> \<exists>a b c d e. xs = [a,b,c,d,e]"
  by (auto simp: length_Suc_conv eval_nat_numeral)

lemma shift_down_4: 
  assumes "length lg = 5" shows "(shift_down 4 lg)[0 := e] = e # butlast lg"
proof -
  from assms obtain a b c d f where "lg = [a,b,c,d,f]" using list5 by blast
  then show ?thesis by (simp add: eval_nat_numeral)
qed

lemma updateDisplay_operationLog [simp]: "operationLog (updateDisplay s) = operationLog s"
  by (simp add: updateDisplay_def Let_def emit_def)

lemma tick_operationLog [simp]: "operationLog (tick d s) = operationLog s"
  by (simp add: tick_def)

lemma logOperation_operationLog: 
  "length (operationLog s) = 5 \<Longrightarrow>
   operationLog (logOperation c opn n s) =
     \<lparr>timestamp = clock s, chatId = c, operation = opn, userName = n\<rparr> # butlast (operationLog s)"
  by (simp add: logOperation_def Let_def shift_down_4)



lemma initializeLog_length [simp]: "length (operationLog (initializeLog s)) = 5"
  by (simp add: initializeLog_def)


subsection \<open>Authorization registry\<close>

lemma split_commas_unfold:
  "split_commas cs = takeWhile (\<lambda>c. \<not> is_comma c) cs #
     (case dropWhile (\<lambda>c. \<not> is_comma c) cs of [] \<Rightarrow> [] | _ # r \<Rightarrow> split_commas r)"
  by (induction cs) (auto simp: is_comma_def split: list.splits)

lemma spec_tokens_dropWhile: "spec_tokens (dropWhile is_comma buf) = spec_tokens buf"
  by (induction buf) (simp_all add: spec_tokens_def is_comma_def)

lemma spec_tokens_char:
  assumes "\<not> is_comma c"
  shows "spec_tokens (c # cs) = (c # takeWhile (\<lambda>c. \<not> is_comma c) cs)
           # spec_tokens (drop 1 (dropWhile (\<lambda>c. \<not> is_comma c) cs))"
proof -
  let ?nc = "\<lambda>c. \<not> is_comma c"
  define dw where "dw = dropWhile ?nc cs"
  have sc: "split_commas cs = takeWhile ?nc cs #
      (case dw of [] \<Rightarrow> [] | _ # r \<Rightarrow> split_commas r)"
    unfolding dw_def by (rule split_commas_unfold)
  have "spec_tokens (c # cs) = (c # takeWhile ?nc cs) #
      filter (\<lambda>t. t \<noteq> []) (case dw of [] \<Rightarrow> [] | _ # r \<Rightarrow> split_commas r)"
    unfolding spec_tokens_def using assms by (simp add: sc is_comma_def)
  moreover have "filter (\<lambda>t. t \<noteq> []) (case dw of [] \<Rightarrow> [] | _ # r \<Rightarrow> split_commas r)
      = spec_tokens (drop 1 dw)"
    by (cases dw) (simp_all add: spec_tokens_def)
  ultimately show ?thesis unfolding dw_def by simp
qed

lemma strtok_None:
  assumes "strtok buf = None" shows "spec_tokens buf = []"
proof -
  from assms have "dropWhile is_comma buf = []"
    by (simp add: strtok_def Let_def split: if_splits)
  then have "spec_tokens (dropWhile is_comma buf) = []"
    by (simp only: spec_tokens_def split_commas.simps filter.simps list.simps if_False if_True simp_thms)
  then show ?thesis by (simp only: spec_tokens_dropWhile)
qed

lemma strtok_Some:
  assumes "strtok buf = Some (token, rest)" shows "spec_tokens buf = token # spec_tokens rest"
proof -
  let ?nc = "\<lambda>c. \<not> is_comma c"
  define start where "start = dropWhile is_comma buf"
  from assms have ne: "start \<noteq> []" and t: "token = takeWhile ?nc start"
      and r: "rest = drop 1 (dropWhile ?nc start)"
    by (auto simp: strtok_def Let_def start_def split: if_splits)
  from ne obtain c cs where st: "start = c # cs" by (cases start) auto
  have "\<not> is_comma (hd start)"
    unfolding start_def using ne [unfolded start_def] by (rule hd_dropWhile)
  then have nc: "\<not> is_comma c" by (simp add: st)
  have "spec_tokens buf = spec_tokens start"
    unfolding start_def by (simp only: spec_tokens_dropWhile)
  also have "\<dots> = (c # takeWhile ?nc cs) # spec_tokens (drop 1 (dropWhile ?nc cs))"
    unfolding st by (rule spec_tokens_char [OF nc])
  also have "\<dots> = token # spec_tokens rest"
    unfolding t r st using nc by simp
  finally show ?thesis .
qed

lemma parse_loop_tokens:
  "length (authorizedUsers s) = MAX_USERS \<Longrightarrow> numAuthorizedUsers s \<le> MAX_USERS \<Longrightarrow>
   (let s' = parse_loop buf s in
      numAuthorizedUsers s' = min MAX_USERS (numAuthorizedUsers s + length (spec_tokens buf))
    \<and> length (authorizedUsers s') = MAX_USERS
    \<and> take (numAuthorizedUsers s') (authorizedUsers s')
        = take (numAuthorizedUsers s) (authorizedUsers s)
          @ take (MAX_USERS - numAuthorizedUsers s) (map atol (spec_tokens buf)))"
proof (induction buf s rule: parse_loop.induct)
  case (1 buf s)
  show ?case
  proof (cases "strtok buf")
    case None
    then show ?thesis
      using "1.prems" by (simp add: parse_loop.simps [of buf] strtok_None Let_def)
  next
    case (Some p)
    obtain token rest where p: "p = (token, rest)" by (cases p)
    show ?thesis
    proof (cases "numAuthorizedUsers s < MAX_USERS")
      case False
      with "1.prems" have full: "numAuthorizedUsers s = MAX_USERS" by simp
      then show ?thesis
        using "1.prems" Some p by (simp add: parse_loop.simps [of buf] Let_def)
    next
      case True
      let ?n = "numAuthorizedUsers s"
      let ?s1 = "s\<lparr>authorizedUsers := (authorizedUsers s)[?n := atol token], numAuthorizedUsers := ?n + 1\<rparr>"
      have pl: "parse_loop buf s = parse_loop rest ?s1"
        using Some p True by (simp add: parse_loop.simps [of buf])
      have tk: "spec_tokens buf = token # spec_tokens rest"
        using Some p by (intro strtok_Some) simp
      have len1: "length (authorizedUsers ?s1) = MAX_USERS" using "1.prems" by simp
      have n1: "numAuthorizedUsers ?s1 \<le> MAX_USERS" using True by simp
      define P where "P = parse_loop rest ?s1"
      have ih1: "numAuthorizedUsers P = min MAX_USERS (numAuthorizedUsers ?s1 + length (spec_tokens rest))"
       and ih2: "length (authorizedUsers P) = MAX_USERS"
       and ih3: "take (numAuthorizedUsers P) (authorizedUsers P)
                 = take (numAuthorizedUsers ?s1) (authorizedUsers ?s1)
                   @ take (MAX_USERS - numAuthorizedUsers ?s1) (map atol (spec_tokens rest))"
        using "1.IH" [OF Some p [symmetric] True len1 n1] unfolding Let_def P_def by blast+
      have g1: "numAuthorizedUsers P = min MAX_USERS (?n + length (spec_tokens buf))"
        using ih1 by (simp add: tk)
      have tk1: "take (Suc ?n) ((authorizedUsers s)[?n := atol token])
                 = take ?n (authorizedUsers s) @ [atol token]"
        using True "1.prems" by (simp add: take_Suc_conv_app_nth)
      have sub: "MAX_USERS - ?n = Suc (MAX_USERS - Suc ?n)" using True by simp
      have "take (numAuthorizedUsers P) (authorizedUsers P)
            = take (Suc ?n) ((authorizedUsers s)[?n := atol token])
              @ take (MAX_USERS - Suc ?n) (map atol (spec_tokens rest))"
        using ih3 by simp
      also have "\<dots> = take ?n (authorizedUsers s)
              @ atol token # take (MAX_USERS - Suc ?n) (map atol (spec_tokens rest))"
        by (simp only: tk1 append_assoc append_Cons append_Nil)
      also have "atol token # take (MAX_USERS - Suc ?n) (map atol (spec_tokens rest))
            = take (MAX_USERS - ?n) (map atol (spec_tokens buf))"
        by (subst sub) (simp add: tk)
      finally have g3: "take (numAuthorizedUsers P) (authorizedUsers P)
            = take ?n (authorizedUsers s) @ take (MAX_USERS - ?n) (map atol (spec_tokens buf))" .
      show ?thesis
        unfolding Let_def pl P_def [symmetric] using g1 ih2 g3 by blast
    qed
  qed
qed

lemma isAuthorizedUser_from_iff:
  "isAuthorizedUser_from i cid s \<longleftrightarrow> (\<exists>k. i \<le> k \<and> k < numAuthorizedUsers s \<and> authorizedUsers s ! k = cid)"
proof (induction i cid s rule: isAuthorizedUser_from.induct)
  case (1 i cid s)
  show ?case
  proof (cases "i < numAuthorizedUsers s")
    case False
    then show ?thesis by (simp add: isAuthorizedUser_from.simps [of i])
  next
    case True
    show ?thesis
    proof (cases "authorizedUsers s ! i = cid")
      case hit: True
      then show ?thesis using True by (auto simp: isAuthorizedUser_from.simps [of i])
    next
      case miss: False
      have "isAuthorizedUser_from i cid s = isAuthorizedUser_from (i + 1) cid s"
        using True miss by (simp add: isAuthorizedUser_from.simps [of i])
      also have "\<dots> \<longleftrightarrow> (\<exists>k. i + 1 \<le> k \<and> k < numAuthorizedUsers s \<and> authorizedUsers s ! k = cid)"
        using "1.IH" [OF True miss] .
      also have "\<dots> \<longleftrightarrow> (\<exists>k. i \<le> k \<and> k < numAuthorizedUsers s \<and> authorizedUsers s ! k = cid)"
        using miss by (metis Suc_eq_plus1 Suc_leD Suc_leI le_neq_implies_less)
      finally show ?thesis .
    qed
  qed
qed

lemma isAuthorizedUser_iff:
  assumes "numAuthorizedUsers s \<le> length (authorizedUsers s)"
  shows "isAuthorizedUser cid s \<longleftrightarrow> cid \<in> set (take (numAuthorizedUsers s) (authorizedUsers s))"
proof -
  have "isAuthorizedUser cid s \<longleftrightarrow> (\<exists>k < numAuthorizedUsers s. authorizedUsers s ! k = cid)"
    by (simp add: isAuthorizedUser_def isAuthorizedUser_from_iff)
  also have "\<dots> \<longleftrightarrow> cid \<in> set (take (numAuthorizedUsers s) (authorizedUsers s))"
    using assms by (auto simp: in_set_conv_nth)
  finally show ?thesis .
qed

lemma strncpy_fits:
  assumes len: "length raw < MAX_USERS_LEN" and nul: "CHR 0x00 \<notin> set raw"
  shows "strncpy (MAX_USERS_LEN - 1) raw = raw"
proof -
  from nul have tw: "takeWhile (\<lambda>c. c \<noteq> CHR 0x00) raw = raw"
    by (auto simp: takeWhile_eq_all_conv)
  show ?thesis unfolding strncpy_def tw using len by simp
qed

lemma parse_loop_frame:
  "\<exists>a n. parse_loop buf s = s\<lparr>authorizedUsers := a, numAuthorizedUsers := n\<rparr>"
proof (induction buf s rule: parse_loop.induct)
  case (1 buf s)
  have same: "s = s\<lparr>authorizedUsers := authorizedUsers s, numAuthorizedUsers := numAuthorizedUsers s\<rparr>"
    by simp
  show ?case
  proof (cases "strtok buf")
    case None
    then have "parse_loop buf s = s" by (simp add: parse_loop.simps [of buf])
    with same show ?thesis by metis
  next
    case (Some p)
    obtain token rest where p: "p = (token, rest)" by (cases p)
    show ?thesis
    proof (cases "numAuthorizedUsers s < MAX_USERS")
      case False
      then have "parse_loop buf s = s" using Some p by (simp add: parse_loop.simps [of buf])
      with same show ?thesis by metis
    next
      case True
      let ?s1 = "s\<lparr>authorizedUsers := (authorizedUsers s)[numAuthorizedUsers s := atol token],
                   numAuthorizedUsers := numAuthorizedUsers s + 1\<rparr>"
      have pl: "parse_loop buf s = parse_loop rest ?s1"
        using Some p True by (simp add: parse_loop.simps [of buf])
      from "1.IH" [OF Some p [symmetric] True]
      obtain a n where "parse_loop rest ?s1 = ?s1\<lparr>authorizedUsers := a, numAuthorizedUsers := n\<rparr>"
        by blast
      then have "parse_loop buf s = s\<lparr>authorizedUsers := a, numAuthorizedUsers := n\<rparr>"
        unfolding pl by simp
      then show ?thesis by blast
    qed
  qed
qed

lemma parseAuthorizedUsers_spec:
  assumes fits: "length (config_authorizedUsers s) < MAX_USERS_LEN" "CHR 0x00 \<notin> set (config_authorizedUsers s)"
      and arr: "length (authorizedUsers s) = MAX_USERS"
  shows "numAuthorizedUsers (parseAuthorizedUsers s) = min MAX_USERS (length (spec_tokens (config_authorizedUsers s)))"
    and "length (authorizedUsers (parseAuthorizedUsers s)) = MAX_USERS"
    and "take (numAuthorizedUsers (parseAuthorizedUsers s)) (authorizedUsers (parseAuthorizedUsers s))
           = spec_load (config_authorizedUsers s)"
proof -
  let ?s0 = "s\<lparr>numAuthorizedUsers := 0\<rparr>"
  let ?raw = "config_authorizedUsers s"
  have P: "parseAuthorizedUsers s = parse_loop ?raw ?s0"
    unfolding parseAuthorizedUsers_def strncpy_fits [OF fits] by (rule refl)
  have pre: "length (authorizedUsers ?s0) = MAX_USERS" "numAuthorizedUsers ?s0 \<le> MAX_USERS"
    using arr by simp_all
  have f1: "numAuthorizedUsers (parse_loop ?raw ?s0)
            = min MAX_USERS (numAuthorizedUsers ?s0 + length (spec_tokens ?raw))"
   and f2: "length (authorizedUsers (parse_loop ?raw ?s0)) = MAX_USERS"
   and f3: "take (numAuthorizedUsers (parse_loop ?raw ?s0)) (authorizedUsers (parse_loop ?raw ?s0))
            = take (numAuthorizedUsers ?s0) (authorizedUsers ?s0)
              @ take (MAX_USERS - numAuthorizedUsers ?s0) (map atol (spec_tokens ?raw))"
    using parse_loop_tokens [OF pre, of ?raw] unfolding Let_def by blast+
  show "numAuthorizedUsers (parseAuthorizedUsers s) = min MAX_USERS (length (spec_tokens ?raw))"
    unfolding P using f1 by simp
  show "length (authorizedUsers (parseAuthorizedUsers s)) = MAX_USERS"
    unfolding P by (rule f2)
  have "take (numAuthorizedUsers (parse_loop ?raw ?s0)) (authorizedUsers (parse_loop ?raw ?s0))
        = take MAX_USERS (map atol (spec_tokens ?raw))"
    unfolding f3 by simp
  then show "take (numAuthorizedUsers (parseAuthorizedUsers s)) (authorizedUsers (parseAuthorizedUsers s))
           = spec_load ?raw"
    unfolding P spec_load_def MAX_USERS_def .
qed

lemma parseAuthorizedUsers_frame:
  "\<exists>a n. parseAuthorizedUsers s = s\<lparr>authorizedUsers := a, numAuthorizedUsers := n\<rparr>"
proof -
  obtain a n where "parse_loop (strncpy (MAX_USERS_LEN - 1) (config_authorizedUsers s)) (s\<lparr>numAuthorizedUsers := 0\<rparr>)
      = s\<lparr>numAuthorizedUsers := 0\<rparr>\<lparr>authorizedUsers := a, numAuthorizedUsers := n\<rparr>"
    using parse_loop_frame by blast
  then have "parseAuthorizedUsers s = s\<lparr>authorizedUsers := a, numAuthorizedUsers := n\<rparr>"
    unfolding parseAuthorizedUsers_def by simp
  then show ?thesis by blast
qed

lemma digits_value_no_digit:
  "(case cs of [] \<Rightarrow> True | d # _ \<Rightarrow> \<not> isdigit d) \<Longrightarrow> digits_value 0 cs = 0"
  by (cases cs) simp_all

lemma atol_non_numeric:
  assumes "non_numeric tok" shows "atol tok = 0"
proof (cases "dropWhile isspace tok")
  case Nil
  show ?thesis unfolding atol_def Nil by simp
next
  case (Cons c cs)
  from assms have nn: "if c = CHR ''-'' \<or> c = CHR ''+''
      then (case cs of [] \<Rightarrow> True | d # _ \<Rightarrow> \<not> isdigit d) else \<not> isdigit c"
    unfolding non_numeric_def Cons by simp
  show ?thesis
  proof (cases "c = CHR ''-'' \<or> c = CHR ''+''")
    case True
    with nn have "digits_value 0 cs = 0"
      by (intro digits_value_no_digit) simp
    with True show ?thesis
      unfolding atol_def Cons by (auto simp: LONG_MIN_def LONG_MAX_def)
  next
    case False
    with nn have "\<not> isdigit c" by simp
    then have "digits_value 0 (c # cs) = 0" by simp
    with False show ?thesis
      unfolding atol_def Cons by (simp add: LONG_MAX_def del: digits_value.simps)
  qed
qed

text \<open>
  Claim C7. Loading the registry from a raw string that fits the configuration buffer
  (fewer than 128 characters, no NUL inside) resets the count and stores exactly what the
  specification describes: the non-empty comma-separated tokens in order, each converted
  by \<^verbatim>\<open>atol\<close>, cut off after the tenth. So at most 10 entries are stored, tokens beyond the
  tenth are dropped without any output (no error is signalled), and a token with no
  number in it is converted to 0 and stored like any other.
\<close>

theorem load_registry:
  assumes "length (config_authorizedUsers s) < MAX_USERS_LEN"
      and "CHR 0x00 \<notin> set (config_authorizedUsers s)"
      and "length (authorizedUsers s) = MAX_USERS"
  shows "let s' = parseAuthorizedUsers s;
             stored = take (numAuthorizedUsers s') (authorizedUsers s')
         in stored = spec_load (config_authorizedUsers s)
            \<and> numAuthorizedUsers s' = min 10 (length (spec_tokens (config_authorizedUsers s)))
            \<and> length stored \<le> 10
            \<and> outputs s' = outputs s
            \<and> (\<forall>tok. non_numeric tok \<longrightarrow> atol tok = 0)"
proof -
  obtain a n where fr: "parseAuthorizedUsers s = s\<lparr>authorizedUsers := a, numAuthorizedUsers := n\<rparr>"
    using parseAuthorizedUsers_frame by blast
  have out: "outputs (parseAuthorizedUsers s) = outputs s" unfolding fr by simp
  note sp = parseAuthorizedUsers_spec [OF assms]
  have "length (spec_load (config_authorizedUsers s)) \<le> 10"
    by (simp add: spec_load_def)
  then show ?thesis
    unfolding Let_def using sp out by (simp add: MAX_USERS_def atol_non_numeric)
qed

theorem load_registry_witness:
  "length (config_authorizedUsers (startup_state ''12,abc,,34'')) < MAX_USERS_LEN
   \<and> CHR 0x00 \<notin> set (config_authorizedUsers (startup_state ''12,abc,,34''))
   \<and> length (authorizedUsers (startup_state ''12,abc,,34'')) = MAX_USERS
   \<and> non_numeric ''abc''
   \<and> (let s' = parseAuthorizedUsers (startup_state ''12,abc,,34'')
      in take (numAuthorizedUsers s') (authorizedUsers s') = [12, 0, 34]
         \<and> numAuthorizedUsers s' = 3 \<and> outputs s' = [] \<and> atol ''abc'' = 0)"
proof -
  let ?s = "startup_state ''12,abc,,34''"
  have h1: "length (config_authorizedUsers ?s) < MAX_USERS_LEN"
    by (simp add: startup_state_def MAX_USERS_LEN_def)
  have h2: "CHR 0x00 \<notin> set (config_authorizedUsers ?s)"
    by (simp add: startup_state_def)
  have h3: "length (authorizedUsers ?s) = MAX_USERS"
    by (simp add: startup_state_def MAX_USERS_def)
  have h4: "non_numeric ''abc''"
    by (simp add: non_numeric_def isspace_def isdigit_def)
  have cfg: "config_authorizedUsers ?s = ''12,abc,,34''" by (simp add: startup_state_def)
  have ld: "spec_load ''12,abc,,34'' = [12, 0, 34]"
    by (simp add: spec_load_def spec_tokens_def atol_def isspace_def isdigit_def digit_value_def LONG_MIN_def LONG_MAX_def)
  have tk: "spec_tokens ''12,abc,,34'' = [''12'', ''abc'', ''34'']"
    by (simp add: spec_tokens_def)
  have o: "outputs ?s = []" by (simp add: startup_state_def)
  let ?s' = "parseAuthorizedUsers ?s"
  have main: "take (numAuthorizedUsers ?s') (authorizedUsers ?s') = [12, 0, 34]
      \<and> numAuthorizedUsers ?s' = min 10 (length [''12'', ''abc'', ''34''])
      \<and> length (take (numAuthorizedUsers ?s') (authorizedUsers ?s')) \<le> 10
      \<and> outputs ?s' = []
      \<and> (\<forall>tok. non_numeric tok \<longrightarrow> atol tok = 0)"
    using load_registry [OF h1 h2 h3] unfolding Let_def cfg ld tk o .
  from main have a: "take (numAuthorizedUsers ?s') (authorizedUsers ?s') = [12, 0, 34]"
    by (rule conjunct1)
  from main have b: "numAuthorizedUsers ?s' = 3" by simp
  from main have c: "outputs ?s' = []" by simp
  from main have "non_numeric ''abc'' \<longrightarrow> atol ''abc'' = 0" by simp
  with h4 have d: "atol ''abc'' = 0" by (rule rev_mp)
  show ?thesis
    unfolding Let_def by (intro conjI h1 h2 h3 h4 a b c d)
qed

text \<open>
  What the registry answers after a load: the queried value is accepted exactly when it
  is the \<^verbatim>\<open>atol\<close> of one of the non-empty tokens (at most 10 of them). On the decimal
  numeral of a number \<open>n\<close> \<^verbatim>\<open>atol\<close> gives \<open>n\<close> itself only up to \<open>LONG_MAX\<close>; every larger
  number is read as \<open>LONG_MAX\<close>.
\<close>

lemma isAuthorizedUser_iff_loaded:
  assumes "length (config_authorizedUsers s) < MAX_USERS_LEN"
      and "CHR 0x00 \<notin> set (config_authorizedUsers s)"
      and "length (authorizedUsers s) = MAX_USERS"
      and "length (spec_tokens (config_authorizedUsers s)) \<le> 10"
  shows "isAuthorizedUser q (parseAuthorizedUsers s)
         \<longleftrightarrow> q \<in> set (map atol (spec_tokens (config_authorizedUsers s)))"
proof -
  note sp = parseAuthorizedUsers_spec [OF assms(1-3)]
  have le: "numAuthorizedUsers (parseAuthorizedUsers s) \<le> length (authorizedUsers (parseAuthorizedUsers s))"
    by (simp add: sp(1) sp(2))
  have "isAuthorizedUser q (parseAuthorizedUsers s)
        \<longleftrightarrow> q \<in> set (spec_load (config_authorizedUsers s))"
    using isAuthorizedUser_iff [OF le, of q] by (simp only: sp(3))
  also have "spec_load (config_authorizedUsers s) = map atol (spec_tokens (config_authorizedUsers s))"
    using assms(4) by (simp add: spec_load_def)
  finally show ?thesis .
qed


lemma digit_cases: "d < 10 \<Longrightarrow> d \<in> set [0, 1, 2, 3, 4, 5, 6, 7, 8, 9 :: nat]"
  by (simp add: numeral_eq_Suc less_Suc_eq)

lemma digit_char_props:
  assumes "d < 10"
  shows "isdigit (digit_char d)" and "digit_value (digit_char d) = d"
    and "\<not> isspace (digit_char d)" and "digit_char d \<noteq> CHR ''-''" and "digit_char d \<noteq> CHR ''+''"
proof -
  from digit_cases [OF assms]
  consider "d = 0" | "d = 1" | "d = 2" | "d = 3" | "d = 4" | "d = 5" | "d = 6" | "d = 7"
    | "d = 8" | "d = 9" by auto
  note c = this
  show "isdigit (digit_char d)"
    by (rule c) (simp_all add: digit_char_def isdigit_def)
  show "digit_value (digit_char d) = d"
    by (rule c) (simp_all add: digit_char_def digit_value_def)
  show "\<not> isspace (digit_char d)"
    by (rule c) (simp_all add: digit_char_def isspace_def)
  show "digit_char d \<noteq> CHR ''-''"
    by (rule c) (simp_all add: digit_char_def)
  show "digit_char d \<noteq> CHR ''+''"
    by (rule c) (simp_all add: digit_char_def)
qed

lemma digits_value_append:
  "\<forall>c \<in> set xs. isdigit c \<Longrightarrow> digits_value acc (xs @ ys) = digits_value (digits_value acc xs) ys"
  by (induction xs arbitrary: acc) simp_all

lemma String_nat_digits: "\<forall>c \<in> set (String_nat n). isdigit c"
proof (induction n rule: String_nat.induct)
  case (1 n)
  show ?case
  proof (cases "n < 10")
    case True
    then show ?thesis by (simp add: String_nat.simps [of n] digit_char_props)
  next
    case False
    have "n mod 10 < 10" by simp
    then have "isdigit (digit_char (n mod 10))" by (rule digit_char_props)
    with 1 False show ?thesis by (simp add: String_nat.simps [of n])
  qed
qed

lemma digits_value_String_nat: "digits_value 0 (String_nat n) = n"
proof (induction n rule: String_nat.induct)
  case (1 n)
  show ?case
  proof (cases "n < 10")
    case True
    then show ?thesis by (simp add: String_nat.simps [of n] digit_char_props)
  next
    case False
    have m: "n mod 10 < 10" by simp
    have "digits_value 0 (String_nat n)
        = digits_value (digits_value 0 (String_nat (n div 10))) [digit_char (n mod 10)]"
      using False by (simp add: String_nat.simps [of n] digits_value_append String_nat_digits)
    also have "\<dots> = (n div 10) * 10 + n mod 10"
      using 1 False by (simp add: digit_char_props [OF m])
    finally show ?thesis by simp
  qed
qed

lemma String_nat_head:
  "\<exists>d cs. d < 10 \<and> String_nat n = digit_char d # cs"
proof (induction n rule: String_nat.induct)
  case (1 n)
  show ?case
  proof (cases "n < 10")
    case True
    then show ?thesis by (auto simp: String_nat.simps [of n])
  next
    case False
    with 1 obtain d cs where "d < 10" "String_nat (n div 10) = digit_char d # cs" by blast
    then show ?thesis using False by (auto simp: String_nat.simps [of n])
  qed
qed

lemma atol_String_nat: "atol (String_nat n) = min LONG_MAX (int n)"
proof -
  obtain d cs where d: "d < 10" and s: "String_nat n = digit_char d # cs"
    using String_nat_head by blast
  have dw: "dropWhile isspace (String_nat n) = digit_char d # cs"
    unfolding s using digit_char_props(3) [OF d] by simp
  have "digits_value 0 (digit_char d # cs) = n"
    using digits_value_String_nat [of n] unfolding s .
  then show ?thesis
    unfolding atol_def dw using digit_char_props(4,5) [OF d]
    by (simp del: digits_value.simps)
qed


lemma registry_big_ids: "isAuthorizedUser q registry_big \<longleftrightarrow> q = 2147483647"
  and registry_big_stored:
    "take (numAuthorizedUsers registry_big) (authorizedUsers registry_big) = [2147483647]"
proof -
  let ?s = "startup_state ''6123456789''"
  have cfg: "config_authorizedUsers ?s = ''6123456789''" by (simp add: startup_state_def)
  have h1: "length (config_authorizedUsers ?s) < MAX_USERS_LEN"
    by (simp add: startup_state_def MAX_USERS_LEN_def)
  have h2: "CHR 0x00 \<notin> set (config_authorizedUsers ?s)"
    by (simp add: startup_state_def)
  have h3: "length (authorizedUsers ?s) = MAX_USERS"
    by (simp add: startup_state_def MAX_USERS_def)
  note sp = parseAuthorizedUsers_spec [OF h1 h2 h3]
  have ld: "spec_load ''6123456789'' = [2147483647]"
    by (simp add: spec_load_def spec_tokens_def atol_def isspace_def isdigit_def digit_value_def LONG_MAX_def)
  have le: "numAuthorizedUsers (parseAuthorizedUsers ?s) \<le> length (authorizedUsers (parseAuthorizedUsers ?s))"
    by (simp add: sp(1) sp(2))
  show "isAuthorizedUser q registry_big \<longleftrightarrow> q = 2147483647"
    unfolding registry_big_def isAuthorizedUser_iff [OF le] sp(3) cfg ld by auto
  show "take (numAuthorizedUsers registry_big) (authorizedUsers registry_big) = [2147483647]"
    unfolding registry_big_def sp(3) cfg ld ..
qed

text \<open>
  Claim C2, at the input where the code departs from it. The registry is loaded from the
  string \<open>6123456789\<close>, one id. The number stored is 2147483647. A message from the chat id
  7000000000, which is not in the string, is converted to 2147483647 as well and is
  authorized; so is the queried id 2147483647; the id 6123456789 that the string holds
  is not a value the query can take.
\<close>

theorem registry_with_large_id_authorizes_other_ids:
  "String_nat 6123456789 = ''6123456789'' \<and> String_nat 7000000000 = ''7000000000''
   \<and> take (numAuthorizedUsers registry_big) (authorizedUsers registry_big) = [2147483647]
   \<and> toInt ''7000000000'' = 2147483647
   \<and> isAuthorizedUser (toInt ''7000000000'') registry_big
   \<and> isAuthorizedUser 2147483647 registry_big
   \<and> \<not> isAuthorizedUser 6123456789 registry_big"
proof -
  have a: "String_nat 6123456789 = ''6123456789''" "String_nat 7000000000 = ''7000000000''"
    by (simp_all add: String_nat.simps digit_char_def)
  have t: "toInt ''7000000000'' = 2147483647"
    by (simp add: toInt_def atol_def isspace_def isdigit_def digit_value_def LONG_MAX_def)
  have y1: "isAuthorizedUser (toInt ''7000000000'') registry_big"
    unfolding t by (simp add: registry_big_ids)
  have y2: "isAuthorizedUser 2147483647 registry_big" by (simp add: registry_big_ids)
  have n: "\<not> isAuthorizedUser 6123456789 registry_big" by (simp add: registry_big_ids)
  show ?thesis by (intro conjI a registry_big_stored t y1 y2 n)
qed

subsection \<open>Relay pulses\<close>

text \<open>
  What holds of the pulses when the activation reads a non-zero \<^verbatim>\<open>millis()\<close>: the relay is
  on right after the activation, a sweep within the timeout leaves it on, a sweep later
  than the timeout switches it off, and a second activation restarts the count.
\<close>

lemma openDoor_active: "doorRelay (openDoor s) \<and> doorOpenTime (openDoor s) = clock s"
  by (simp add: openDoor_def)

lemma lightOn_active: "lightRelay (lightOn s) \<and> lightOpenTime (lightOn s) = clock s"
  by (simp add: lightOn_def)

lemma sweep_keeps_door_within_timeout:
  "doorRelay s \<Longrightarrow> clock s - doorOpenTime s \<le> DOOR_TIMEOUT \<Longrightarrow> doorRelay (handleTimeouts s)"
  by (auto simp: handleTimeouts_def Let_def)

lemma sweep_releases_door_after_timeout:
  "doorOpenTime s \<noteq> 0 \<Longrightarrow> DOOR_TIMEOUT < clock s - doorOpenTime s \<Longrightarrow>
   \<not> doorRelay (handleTimeouts s) \<and> doorOpenTime (handleTimeouts s) = 0"
  by (auto simp: handleTimeouts_def Let_def word_greater_zero_iff)

lemma sweep_keeps_light_within_timeout:
  "lightRelay s \<Longrightarrow> clock s - lightOpenTime s \<le> LIGHT_TIMEOUT \<Longrightarrow> lightRelay (handleTimeouts s)"
  by (auto simp: handleTimeouts_def Let_def)

lemma sweep_releases_light_after_timeout:
  "lightOpenTime s \<noteq> 0 \<Longrightarrow> LIGHT_TIMEOUT < clock s - lightOpenTime s \<Longrightarrow>
   \<not> lightRelay (handleTimeouts s) \<and> lightOpenTime (handleTimeouts s) = 0"
  by (auto simp: handleTimeouts_def Let_def word_greater_zero_iff)

lemma door_pulse:
  assumes "clock s \<noteq> 0"
  shows "doorRelay (run_actions [ActivateDoor] s)"
    and "d \<le> DOOR_TIMEOUT \<Longrightarrow> doorRelay (run_actions [ActivateDoor, Wait d, Sweep] s)"
    and "DOOR_TIMEOUT < d \<Longrightarrow> \<not> doorRelay (run_actions [ActivateDoor, Wait d, Sweep] s)"
  using assms by (auto simp: openDoor_def tick_def handleTimeouts_def Let_def word_greater_zero_iff)

lemma door_retrigger:
  "d \<le> DOOR_TIMEOUT \<Longrightarrow>
   doorRelay (run_actions [ActivateDoor, Wait 600, ActivateDoor, Wait d, Sweep] s)"
  by (auto simp: openDoor_def tick_def handleTimeouts_def Let_def)

lemma actuator_inv_preserved:
  assumes "actuator_inv s"
  shows "actuator_inv (handleTimeouts s)" and "actuator_inv (tick d s)"
    and "clock s \<noteq> 0 \<Longrightarrow> actuator_inv (openDoor s)"
    and "clock s \<noteq> 0 \<Longrightarrow> actuator_inv (lightOn s)"
  using assms
  by (auto simp: actuator_inv_def handleTimeouts_def Let_def tick_def openDoor_def lightOn_def)

text \<open>
  Claim C3, at the input where the code departs from it. \<^verbatim>\<open>openDoor\<close> stores \<^verbatim>\<open>millis()\<close> in
  \<^verbatim>\<open>doorOpenTime\<close>, and \<^verbatim>\<open>handleTimeouts\<close> reads the value 0 of that variable as "not
  active". When the activation happens in the millisecond in which the 32-bit counter
  has wrapped to 0, the relay is switched on but a sweep 5000 ms later, far beyond the
  1000 ms of the pulse, leaves it on.
\<close>

theorem door_relay_stuck_after_activation_at_rollover:
  "let s1 = run_actions [Wait 1, ActivateDoor] (s\<lparr>clock := 0xFFFFFFFF\<rparr>);
       s2 = run_actions [Wait 5000, Sweep] s1
   in clock s1 = 0 \<and> doorRelay s1 \<and> clock s2 = 5000 \<and> DOOR_TIMEOUT < clock s2 - clock s1
      \<and> doorRelay s2"
  by (simp add: Let_def tick_def openDoor_def handleTimeouts_def DOOR_TIMEOUT_def)

text \<open>
  Claim C4, at the same input. After an activation at \<^verbatim>\<open>millis() = 0\<close> the relay is on while
  the timestamp is unset, so the invariant is broken, and no number of later sweeps ever
  switches the relay off again.
\<close>

theorem actuator_invariant_broken_at_clock_zero:
  "let s1 = openDoor (s\<lparr>clock := 0\<rparr>)
   in doorRelay s1 \<and> doorOpenTime s1 = 0 \<and> \<not> actuator_inv s1
      \<and> (\<forall>ds. doorRelay (fold (\<lambda>d s. handleTimeouts (tick d s)) ds s1)
                \<and> doorOpenTime (fold (\<lambda>d s. handleTimeouts (tick d s)) ds s1) = 0)"
proof -
  have stuck: "doorRelay (fold (\<lambda>d s. handleTimeouts (tick d s)) ds t)
      \<and> doorOpenTime (fold (\<lambda>d s. handleTimeouts (tick d s)) ds t) = 0"
    if "doorRelay t" "doorOpenTime t = 0" for ds t
    using that
  proof (induction ds arbitrary: t)
    case Nil
    then show ?case by simp
  next
    case (Cons d ds)
    have "doorRelay (handleTimeouts (tick d t))" "doorOpenTime (handleTimeouts (tick d t)) = 0"
      using Cons.prems by (simp_all add: handleTimeouts_def tick_def Let_def)
    then show ?case using Cons.IH by simp
  qed
  show ?thesis
    unfolding Let_def
    by (intro conjI allI stuck [THEN conjunct1] stuck [THEN conjunct2])
       (simp_all add: openDoor_def actuator_inv_def)
qed

subsection \<open>Physical button\<close>

lemma updateDisplay_frame [simp]:
  "clock (updateDisplay s) = clock s"
  "doorRelay (updateDisplay s) = doorRelay s"
  "doorOpenTime (updateDisplay s) = doorOpenTime s"
  "lightRelay (updateDisplay s) = lightRelay s"
  "lightOpenTime (updateDisplay s) = lightOpenTime s"
  "buttonInterruptFlag (updateDisplay s) = buttonInterruptFlag s"
  "lastInterruptTime (updateDisplay s) = lastInterruptTime s"
  "remote_outputs (updateDisplay s) = remote_outputs s"
  by (simp_all add: updateDisplay_def Let_def emit_def remote_outputs_def)

lemma logOperation_frame [simp]:
  "clock (logOperation c opn n s) = clock s"
  "doorRelay (logOperation c opn n s) = doorRelay s"
  "doorOpenTime (logOperation c opn n s) = doorOpenTime s"
  "lightRelay (logOperation c opn n s) = lightRelay s"
  "lightOpenTime (logOperation c opn n s) = lightOpenTime s"
  "buttonInterruptFlag (logOperation c opn n s) = buttonInterruptFlag s"
  "lastInterruptTime (logOperation c opn n s) = lastInterruptTime s"
  "remote_outputs (logOperation c opn n s) = remote_outputs s"
  by (simp_all add: logOperation_def Let_def remote_outputs_def [symmetric])
     (simp_all add: remote_outputs_def)

lemma confirmationBeep_frame [simp]:
  "clock (confirmationBeep s) = clock s + 1250"
  "doorRelay (confirmationBeep s) = doorRelay s"
  "doorOpenTime (confirmationBeep s) = doorOpenTime s"
  "lightRelay (confirmationBeep s) = lightRelay s"
  "lightOpenTime (confirmationBeep s) = lightOpenTime s"
  "buttonInterruptFlag (confirmationBeep s) = buttonInterruptFlag s"
  "lastInterruptTime (confirmationBeep s) = lastInterruptTime s"
  "operationLog (confirmationBeep s) = operationLog s"
  "remote_outputs (confirmationBeep s) = remote_outputs s"
  by (simp_all add: confirmationBeep_def delay_def tick_def emit_def remote_outputs_def)

text \<open>
  Claim C6. When the interrupt routine accepts one edge and the main loop polls the flag
  \<open>d\<close> ms later, the flag is consumed, the door relay is switched on with the current
  time as its timestamp, exactly one entry \<open>(0, DOOR_BUTTON, Button)\<close> is put in front of the
  history (a second poll changes nothing), and the outbound Telegram traffic is unchanged.
\<close>

theorem button_press_opens_door_and_logs:
  assumes "interruptDebounceDelay < clock s - lastInterruptTime s"
      and "length (operationLog s) = 5"
  shows "let s1 = buttonISR s;
             s2 = checkButtonOpenDoor (tick d s1)
         in buttonInterruptFlag s1 \<and> \<not> buttonInterruptFlag s2
            \<and> doorRelay s2 \<and> doorOpenTime s2 = clock s + d
            \<and> operationLog s2
                = \<lparr>timestamp = clock s + d, chatId = 0, operation = ''DOOR_BUTTON'',
                   userName = ''Button''\<rparr> # butlast (operationLog s)
            \<and> remote_outputs s2 = remote_outputs s
            \<and> checkButtonOpenDoor s2 = s2"
proof -
  let ?s1 = "buttonISR s"
  let ?t = "tick d ?s1"
  have s1: "?s1 = s\<lparr>buttonInterruptFlag := True, lastInterruptTime := clock s\<rparr>"
    using assms(1) by (simp add: buttonISR_def Let_def)
  have flag: "buttonInterruptFlag ?t" unfolding s1 by (simp add: tick_def)
  let ?o = "openDoor (?t\<lparr>buttonInterruptFlag := False\<rparr>)"
  have s2: "checkButtonOpenDoor ?t
      = updateDisplay (confirmationBeep (logOperation 0 ''DOOR_BUTTON'' ''Button'' ?o))"
    using flag by (simp add: checkButtonOpenDoor_def openDoorFromButton_def Let_def)
  have len: "length (operationLog ?o) = 5" "clock ?o = clock s + d" "operationLog ?o = operationLog s"
      "remote_outputs ?o = remote_outputs s"
    unfolding s1 using assms(2) by (simp_all add: openDoor_def tick_def remote_outputs_def)
  have nf: "\<not> buttonInterruptFlag (checkButtonOpenDoor ?t)"
    unfolding s2 by (simp add: openDoor_def)
  show ?thesis
    unfolding Let_def
  proof (intro conjI)
    show "buttonInterruptFlag ?s1" unfolding s1 by simp
    show "\<not> buttonInterruptFlag (checkButtonOpenDoor ?t)" by (rule nf)
    show "doorRelay (checkButtonOpenDoor ?t)" unfolding s2 by (simp add: openDoor_def)
    show "doorOpenTime (checkButtonOpenDoor ?t) = clock s + d"
      unfolding s2 by (simp add: openDoor_def tick_def s1)
    show "operationLog (checkButtonOpenDoor ?t)
          = \<lparr>timestamp = clock s + d, chatId = 0, operation = ''DOOR_BUTTON'',
             userName = ''Button''\<rparr> # butlast (operationLog s)"
      unfolding s2 using logOperation_operationLog [OF len(1), of 0 "''DOOR_BUTTON''" "''Button''"]
      by (simp add: len(2) len(3))
    show "remote_outputs (checkButtonOpenDoor ?t) = remote_outputs s"
      unfolding s2 by (simp add: len(4))
    show "checkButtonOpenDoor (checkButtonOpenDoor ?t) = checkButtonOpenDoor ?t"
      using nf by (simp add: checkButtonOpenDoor_def [of "checkButtonOpenDoor ?t"])
  qed
qed

theorem button_press_opens_door_and_logs_witness:
  "interruptDebounceDelay < clock ((startup_state [])\<lparr>clock := 5000\<rparr>)
                            - lastInterruptTime ((startup_state [])\<lparr>clock := 5000\<rparr>)
   \<and> length (operationLog ((startup_state [])\<lparr>clock := 5000\<rparr>)) = 5
   \<and> (let s1 = buttonISR ((startup_state [])\<lparr>clock := 5000\<rparr>);
           s2 = checkButtonOpenDoor (tick 7 s1)
       in doorRelay s2 \<and> doorOpenTime s2 = 5007
          \<and> operationLog s2
              = [\<lparr>timestamp = 5007, chatId = 0, operation = ''DOOR_BUTTON'', userName = ''Button''\<rparr>,
                 empty_entry, empty_entry, empty_entry, empty_entry]
          \<and> remote_outputs s2 = [])"
proof -
  let ?s = "(startup_state [])\<lparr>clock := 5000\<rparr>"
  have h1: "interruptDebounceDelay < clock ?s - lastInterruptTime ?s"
    by (simp add: startup_state_def interruptDebounceDelay_def)
  have h2: "length (operationLog ?s) = 5"
    by (simp add: startup_state_def)
  have v: "clock ?s + 7 = 5007" "remote_outputs ?s = []"
      "butlast (operationLog ?s) = [empty_entry, empty_entry, empty_entry, empty_entry]"
    by (simp_all add: startup_state_def remote_outputs_def eval_nat_numeral)
  have main: "let s1 = buttonISR ?s; s2 = checkButtonOpenDoor (tick 7 s1)
      in buttonInterruptFlag s1 \<and> \<not> buttonInterruptFlag s2
         \<and> doorRelay s2 \<and> doorOpenTime s2 = 5007
         \<and> operationLog s2
             = \<lparr>timestamp = 5007, chatId = 0, operation = ''DOOR_BUTTON'', userName = ''Button''\<rparr>
               # [empty_entry, empty_entry, empty_entry, empty_entry]
         \<and> remote_outputs s2 = []
         \<and> checkButtonOpenDoor s2 = s2"
    using button_press_opens_door_and_logs [OF h1 h2, of 7] unfolding v .
  show ?thesis
    using main h1 h2 unfolding Let_def by simp
qed

text \<open>
  The debounce on readings of the 32-bit counter: after an accepted edge, an edge whose
  reading is less than 100 ms later is ignored and one whose reading is more than 100 ms
  later is accepted. In true elapsed time \<open>g\<close> the second edge is accepted exactly when
  \<open>g mod 2 ^ 32\<close> exceeds 100.
\<close>

lemma debounce_window:
  assumes "edge_accepted s"
  shows "(d < interruptDebounceDelay \<longrightarrow> accepted_edges [0, d] s = 1)
       \<and> (interruptDebounceDelay < d \<longrightarrow> accepted_edges [0, d] s = 2)
       \<and> (d < interruptDebounceDelay \<longrightarrow> buttonISR (tick d (buttonISR s)) = tick d (buttonISR s))
       \<and> (interruptDebounceDelay < d \<longrightarrow>
            buttonISR (tick d (buttonISR s))
              = (tick d (buttonISR s))\<lparr>buttonInterruptFlag := True, lastInterruptTime := clock s + d\<rparr>)"
  using assms
  by (auto simp: edge_accepted_def buttonISR_def Let_def tick_def)


lemma edge_after_accepted_edge:
  assumes "edge_accepted s"
  shows "edge_accepted (tick (of_nat g) (buttonISR s)) \<longleftrightarrow> 100 < g mod 4294967296"
proof -
  have s1: "buttonISR s = s\<lparr>buttonInterruptFlag := True, lastInterruptTime := clock s\<rparr>"
    using assms by (simp add: edge_accepted_def buttonISR_def Let_def split: if_splits)
  have "edge_accepted (tick (of_nat g) (buttonISR s)) \<longleftrightarrow> (100 :: ulong) < of_nat g"
    unfolding s1 by (simp add: edge_accepted_def buttonISR_def Let_def tick_def interruptDebounceDelay_def)
  also have "\<dots> \<longleftrightarrow> 100 < unat (of_nat g :: ulong)"
    by (simp add: word_less_nat_alt)
  also have "unat (of_nat g :: ulong) = g mod 4294967296"
    by (simp add: unat_of_nat)
  finally show ?thesis .
qed

text \<open>
  Claim C9, at the input where the code departs from it. After an accepted edge a second
  edge arrives 4294967346 ms later, one full period of the counter plus 50 ms and so far
  more than the 100 ms of the window. \<^verbatim>\<open>buttonISR\<close> computes the difference of the two
  readings, which is 50, ignores the edge and leaves the state as it is: the two edges
  give one event.
\<close>

theorem debounce_ignores_edge_one_counter_period_later:
  "edge_accepted ((startup_state [])\<lparr>clock := 5000\<rparr>)
   \<and> (100 :: nat) < 4294967346
   \<and> accepted_edges_ms [0, 4294967346] ((startup_state [])\<lparr>clock := 5000\<rparr>) = 1
   \<and> \<not> edge_accepted (tick (of_nat 4294967346) (buttonISR ((startup_state [])\<lparr>clock := 5000\<rparr>)))
   \<and> buttonISR (tick (of_nat 4294967346) (buttonISR ((startup_state [])\<lparr>clock := 5000\<rparr>)))
       = tick (of_nat 4294967346) (buttonISR ((startup_state [])\<lparr>clock := 5000\<rparr>))"
proof -
  let ?s = "(startup_state [])\<lparr>clock := 5000\<rparr>"
  have h: "edge_accepted ?s"
    by (simp add: edge_accepted_def buttonISR_def Let_def startup_state_def interruptDebounceDelay_def)
  have s1: "buttonISR ?s = ?s\<lparr>buttonInterruptFlag := True, lastInterruptTime := 5000\<rparr>"
    by (simp add: buttonISR_def Let_def startup_state_def interruptDebounceDelay_def)
  have n: "\<not> edge_accepted (tick (of_nat 4294967346) (buttonISR ?s))"
    unfolding edge_after_accepted_edge [OF h] by simp
  have same: "buttonISR (tick (of_nat 4294967346) (buttonISR ?s)) = tick (of_nat 4294967346) (buttonISR ?s)"
    unfolding s1 by (simp add: buttonISR_def Let_def tick_def interruptDebounceDelay_def)
  have t0: "tick 0 ?s = ?s" by (simp add: tick_def)
  have cnt: "accepted_edges_ms [0, 4294967346] ?s = 1"
    unfolding accepted_edges_ms_def using h n by (simp add: t0 del: of_nat_numeral)
  show ?thesis by (intro conjI h n same cnt) simp
qed

subsection \<open>Unauthorized events\<close>

lemma errorBeep_outputs:
  "outputs (errorBeep s) = outputs s @ [Tone 1000, NoTone, Tone 1500, NoTone]"
  by (simp add: errorBeep_def Let_def delay_def tick_def emit_def)

lemma errorBeep_frame [simp]:
  "doorRelay (errorBeep s) = doorRelay s"
  "doorOpenTime (errorBeep s) = doorOpenTime s"
  "lightRelay (errorBeep s) = lightRelay s"
  "lightOpenTime (errorBeep s) = lightOpenTime s"
  "operationLog (errorBeep s) = operationLog s"
  by (simp_all add: errorBeep_def Let_def delay_def tick_def emit_def)

lemma emit_frame [simp]:
  "doorRelay (emit e s) = doorRelay s"
  "doorOpenTime (emit e s) = doorOpenTime s"
  "lightRelay (emit e s) = lightRelay s"
  "lightOpenTime (emit e s) = lightOpenTime s"
  "operationLog (emit e s) = operationLog s"
  "outputs (emit e s) = outputs s @ [e]"
  by (simp_all add: emit_def)

lemma registry_111_ids: "isAuthorizedUser q registry_111 \<longleftrightarrow> q = 111"
proof -
  let ?s = "startup_state ''111''"
  have cfg: "config_authorizedUsers ?s = ''111''" by (simp add: startup_state_def)
  have h1: "length (config_authorizedUsers ?s) < MAX_USERS_LEN"
    by (simp add: startup_state_def MAX_USERS_LEN_def)
  have h2: "CHR 0x00 \<notin> set (config_authorizedUsers ?s)"
    by (simp add: startup_state_def)
  have h3: "length (authorizedUsers ?s) = MAX_USERS"
    by (simp add: startup_state_def MAX_USERS_def)
  note sp = parseAuthorizedUsers_spec [OF h1 h2 h3]
  have ld: "spec_load ''111'' = [111]"
    by (simp add: spec_load_def spec_tokens_def atol_def isspace_def isdigit_def digit_value_def LONG_MAX_def)
  have le: "numAuthorizedUsers (parseAuthorizedUsers ?s) \<le> length (authorizedUsers (parseAuthorizedUsers ?s))"
    by (simp add: sp(1) sp(2))
  show ?thesis
    unfolding registry_111_def isAuthorizedUser_iff [OF le] sp(3) cfg ld by auto
qed

lemma registry_111_fields:
  "outputs registry_111 = []" "\<not> doorRelay registry_111" "operationLog registry_111 = replicate 5 empty_entry"
proof -
  obtain a n where fr: "registry_111 = (startup_state ''111'')\<lparr>authorizedUsers := a, numAuthorizedUsers := n\<rparr>"
    unfolding registry_111_def using parseAuthorizedUsers_frame by blast
  show "outputs registry_111 = []" "\<not> doorRelay registry_111"
       "operationLog registry_111 = replicate 5 empty_entry"
    unfolding fr by (simp_all add: startup_state_def)
qed

lemma toInt_999: "toInt ''999'' = 999"
  by (simp add: toInt_def atol_def isspace_def isdigit_def digit_value_def LONG_MAX_def)

text \<open>
  The two branches of \<^verbatim>\<open>handleNewMessages\<close> for an originator that is not in the registry: a
  text message goes to \<^verbatim>\<open>handleUnauthorizedUser\<close> (access-denied message, then the error
  tones); a callback query is answered with \<open>Unauthorized\<close>. Neither looks at the command,
  touches the relays and their timestamps, or appends to the history.
\<close>

lemma unauthorized_event_is_rejected:
  assumes "\<not> isAuthorizedUser (toInt (m_chat_id m)) s"
  shows "(m_type m = ''message'' \<longrightarrow>
            handleNewMessage m s = errorBeep (sendMessage (m_chat_id m) access_denied_text ''Markdown'' s)
          \<and> outputs (handleNewMessage m s)
              = outputs s @ [SendMessage (m_chat_id m) access_denied_text ''Markdown'',
                             Tone 1000, NoTone, Tone 1500, NoTone])
       \<and> (m_type m = ''callback_query'' \<longrightarrow>
            handleNewMessage m s = answerCallbackQuery (m_query_id m) ''Unauthorized'' s
          \<and> outputs (handleNewMessage m s)
              = outputs s @ [AnswerCallbackQuery (m_query_id m) ''Unauthorized''])
       \<and> doorRelay (handleNewMessage m s) = doorRelay s
       \<and> doorOpenTime (handleNewMessage m s) = doorOpenTime s
       \<and> lightRelay (handleNewMessage m s) = lightRelay s
       \<and> lightOpenTime (handleNewMessage m s) = lightOpenTime s
       \<and> operationLog (handleNewMessage m s) = operationLog s
       \<and> handleNewMessages [m] s = handleNewMessage m s"
proof -
  have msg: "handleNewMessage m s = errorBeep (sendMessage (m_chat_id m) access_denied_text ''Markdown'' s)"
    if "m_type m = ''message''"
    using that assms by (simp add: handleNewMessage_def Let_def handleUnauthorizedUser_def)
  have cb: "handleNewMessage m s = answerCallbackQuery (m_query_id m) ''Unauthorized'' s"
    if "m_type m = ''callback_query''"
    using that assms by (simp add: handleNewMessage_def Let_def)
  have other: "handleNewMessage m s = s"
    if "m_type m \<noteq> ''message''" "m_type m \<noteq> ''callback_query''"
    using that by (simp add: handleNewMessage_def)
  consider "m_type m = ''message''" | "m_type m = ''callback_query''"
    | "m_type m \<noteq> ''message''" "m_type m \<noteq> ''callback_query''" by blast
  then have frame: "doorRelay (handleNewMessage m s) = doorRelay s
      \<and> doorOpenTime (handleNewMessage m s) = doorOpenTime s
      \<and> lightRelay (handleNewMessage m s) = lightRelay s
      \<and> lightOpenTime (handleNewMessage m s) = lightOpenTime s
      \<and> operationLog (handleNewMessage m s) = operationLog s"
  proof cases
    case 1
    show ?thesis unfolding msg [OF 1] by (simp add: sendMessage_def)
  next
    case 2
    show ?thesis unfolding cb [OF 2] by (simp add: answerCallbackQuery_def)
  next
    case 3
    show ?thesis unfolding other [OF 3] by simp
  qed
  have o1: "outputs (errorBeep (sendMessage (m_chat_id m) access_denied_text ''Markdown'' s))
      = outputs s @ [SendMessage (m_chat_id m) access_denied_text ''Markdown'',
                     Tone 1000, NoTone, Tone 1500, NoTone]"
    by (simp add: errorBeep_outputs sendMessage_def)
  have o2: "outputs (answerCallbackQuery (m_query_id m) ''Unauthorized'' s)
      = outputs s @ [AnswerCallbackQuery (m_query_id m) ''Unauthorized'']"
    by (simp add: answerCallbackQuery_def)
  have one: "handleNewMessages [m] s = handleNewMessage m s" by simp
  from msg o1 have A: "m_type m = ''message'' \<longrightarrow>
            handleNewMessage m s = errorBeep (sendMessage (m_chat_id m) access_denied_text ''Markdown'' s)
          \<and> outputs (handleNewMessage m s)
              = outputs s @ [SendMessage (m_chat_id m) access_denied_text ''Markdown'',
                             Tone 1000, NoTone, Tone 1500, NoTone]"
    by metis
  from cb o2 have B: "m_type m = ''callback_query'' \<longrightarrow>
            handleNewMessage m s = answerCallbackQuery (m_query_id m) ''Unauthorized'' s
          \<and> outputs (handleNewMessage m s)
              = outputs s @ [AnswerCallbackQuery (m_query_id m) ''Unauthorized'']"
    by metis
  from frame have f1: "doorRelay (handleNewMessage m s) = doorRelay s"
    and f2: "doorOpenTime (handleNewMessage m s) = doorOpenTime s"
    and f3: "lightRelay (handleNewMessage m s) = lightRelay s"
    and f4: "lightOpenTime (handleNewMessage m s) = lightOpenTime s"
    and f5: "operationLog (handleNewMessage m s) = operationLog s"
    by simp_all
  show ?thesis by (intro conjI A B f1 f2 f3 f4 f5 one)
qed


lemma unauthorized_events_at_registry_111:
  "\<not> isAuthorizedUser (toInt (m_chat_id unauthorized_text)) registry_111
   \<and> outputs (handleNewMessage unauthorized_text registry_111)
       = [SendMessage ''999'' access_denied_text ''Markdown'', Tone 1000, NoTone, Tone 1500, NoTone]
   \<and> \<not> doorRelay (handleNewMessage unauthorized_text registry_111)
   \<and> operationLog (handleNewMessage unauthorized_text registry_111) = replicate 5 empty_entry
   \<and> outputs (handleNewMessage unauthorized_callback registry_111)
       = [AnswerCallbackQuery ''q1'' ''Unauthorized'']"
proof -
  have na: "\<not> isAuthorizedUser (toInt (m_chat_id unauthorized_text)) registry_111"
    by (simp add: unauthorized_text_def toInt_999 registry_111_ids)
  have nb: "\<not> isAuthorizedUser (toInt (m_chat_id unauthorized_callback)) registry_111"
    by (simp add: unauthorized_callback_def toInt_999 registry_111_ids)
  have ty: "m_type unauthorized_text = ''message''" "m_chat_id unauthorized_text = ''999''"
    by (simp_all add: unauthorized_text_def)
  have tz: "m_type unauthorized_callback = ''callback_query''" "m_query_id unauthorized_callback = ''q1''"
    by (simp_all add: unauthorized_callback_def)
  note A = unauthorized_event_is_rejected [OF na]
  note B = unauthorized_event_is_rejected [OF nb]
  have a1: "outputs (handleNewMessage unauthorized_text registry_111)
       = [SendMessage ''999'' access_denied_text ''Markdown'', Tone 1000, NoTone, Tone 1500, NoTone]"
    using A [THEN conjunct1, rule_format, OF ty(1), THEN conjunct2]
    unfolding ty(2) registry_111_fields(1) append_Nil .
  have a2: "\<not> doorRelay (handleNewMessage unauthorized_text registry_111)"
    using A [THEN conjunct2, THEN conjunct2, THEN conjunct1] registry_111_fields(2) by simp
  have a3: "operationLog (handleNewMessage unauthorized_text registry_111) = replicate 5 empty_entry"
    using A [THEN conjunct2, THEN conjunct2, THEN conjunct2, THEN conjunct2, THEN conjunct2,
             THEN conjunct2, THEN conjunct1]
    unfolding registry_111_fields(3) .
  have b1: "outputs (handleNewMessage unauthorized_callback registry_111)
       = [AnswerCallbackQuery ''q1'' ''Unauthorized'']"
    using B [THEN conjunct2, THEN conjunct1, rule_format, OF tz(1), THEN conjunct2]
    unfolding tz(2) registry_111_fields(1) append_Nil .
  show ?thesis by (intro conjI na a1 a2 a3 b1)
qed

text \<open>
  Claim C1, at the input where the code departs from it. With the registry loaded from
  \<open>111\<close>, a callback from the chat id 999 produces the callback answer \<open>Unauthorized\<close> and
  nothing else: the access-denied message that the text branch sends is not sent and no
  error tone is played.
\<close>

theorem unauthorized_callback_not_denied_by_message:
  "\<not> isAuthorizedUser (toInt (m_chat_id unauthorized_callback)) registry_111
   \<and> outputs (handleNewMessages [unauthorized_callback] registry_111)
       = [AnswerCallbackQuery ''q1'' ''Unauthorized'']
   \<and> SendMessage ''999'' access_denied_text ''Markdown''
       \<notin> set (outputs (handleNewMessages [unauthorized_callback] registry_111))
   \<and> Tone 1000 \<notin> set (outputs (handleNewMessages [unauthorized_callback] registry_111))"
proof -
  have na: "\<not> isAuthorizedUser (toInt (m_chat_id unauthorized_callback)) registry_111"
    by (simp add: unauthorized_callback_def toInt_999 registry_111_ids)
  have out: "outputs (handleNewMessages [unauthorized_callback] registry_111)
      = [AnswerCallbackQuery ''q1'' ''Unauthorized'']"
    using na
    by (simp add: handleNewMessage_def Let_def unauthorized_callback_def answerCallbackQuery_def
        emit_def registry_111_fields)
  show ?thesis unfolding out using na by simp
qed

subsection \<open>Log renderers\<close>

text \<open>
  The renderers on a history without gaps: with no valid entry the detailed log is the
  heading followed by \<open>No operations recorded.\<close> and every short line is empty; with valid
  entries in exactly the slots 0, 1 and 2 the detailed log has exactly the three blocks of
  these slots and exactly the short lines 0, 1 and 2 are non-empty.
\<close>

lemma valid_entry_iff: "valid_entry e \<longleftrightarrow> timestamp e \<noteq> 0"
  by (simp add: valid_entry_def word_greater_zero_iff)

lemma short_line_empty_iff: "getShortLogLine idx s = [] \<longleftrightarrow> \<not> valid_entry (operationLog s ! idx)"
  by (simp add: getShortLogLine_def Let_def valid_entry_iff)

lemma renderers_on_empty_history:
  assumes "operationLog s = [a, b, c, d, e]"
      and "\<not> valid_entry a" "\<not> valid_entry b" "\<not> valid_entry c" "\<not> valid_entry d" "\<not> valid_entry e"
  shows "getFormattedLog s = log_header @ ''No operations recorded.''"
    and "getShortLogLine 0 s = []" "getShortLogLine 1 s = []" "getShortLogLine 2 s = []"
        "getShortLogLine 3 s = []" "getShortLogLine 4 s = []"
  using assms by (simp_all add: getFormattedLog_def Let_def log_header_def short_line_empty_iff)

lemma renderers_on_three_leading_entries:
  assumes "operationLog s = [a, b, c, d, e]"
      and "valid_entry a" "valid_entry b" "valid_entry c" "\<not> valid_entry d" "\<not> valid_entry e"
  shows "getFormattedLog s
           = log_header @ log_block (clock s) a @ log_block (clock s) b @ log_block (clock s) c"
    and "getShortLogLine 0 s \<noteq> []" "getShortLogLine 1 s \<noteq> []" "getShortLogLine 2 s \<noteq> []"
        "getShortLogLine 3 s = []" "getShortLogLine 4 s = []"
proof -
  have n: "length (filter valid_entry (take 5 (operationLog s))) = 3"
    using assms by simp
  have up: "[0..<3] = [0, 1, 2]" by (simp add: upt_rec)
  show "getFormattedLog s
           = log_header @ log_block (clock s) a @ log_block (clock s) b @ log_block (clock s) c"
    unfolding getFormattedLog_def Let_def n up by (simp add: assms(1) log_header_def)
  show "getShortLogLine 0 s \<noteq> []" "getShortLogLine 1 s \<noteq> []" "getShortLogLine 2 s \<noteq> []"
        "getShortLogLine 3 s = []" "getShortLogLine 4 s = []"
    using assms by (simp_all add: short_line_empty_iff)
qed

lemma replicate_5: "replicate 5 x = [x, x, x, x, x]"
  by (simp add: eval_nat_numeral)

lemma history_with_gap_log:
  shows "operationLog history_with_gap =
     [\<lparr>timestamp = 900, chatId = 0, operation = ''DOOR_BUTTON'', userName = ''Button''\<rparr>,
      \<lparr>timestamp = 500, chatId = 111, operation = ''OPEN_DOOR'', userName = ''Alice''\<rparr>,
      \<lparr>timestamp = 0, chatId = 222, operation = ''LIGHT_ON'', userName = ''Bob''\<rparr>,
      \<lparr>timestamp = 4294966296, chatId = 111, operation = ''OPEN_DOOR'', userName = ''Alice''\<rparr>,
      empty_entry]"
  and "clock history_with_gap = 2000"
  by (simp_all add: history_with_gap_def logOperation_operationLog tick_def initializeLog_def
        startup_state_def replicate_5)

text \<open>
  Claim C8, at the input where the code departs from it. \<^verbatim>\<open>logOperation\<close> stores \<^verbatim>\<open>millis()\<close>
  as the timestamp and the renderers read the timestamp 0 as "empty slot". After an append
  at \<^verbatim>\<open>millis() = 0\<close> and two more appends the history holds exactly three valid entries, in
  the slots 0, 1 and 3. The short renderer gives an empty line for slot 2 and a non-empty
  one for slot 3; the detailed renderer counts three valid entries and renders the slots
  0, 1 and 2, so it shows the entry it regards as empty and leaves out the valid entry
  of slot 3.
\<close>

theorem renderers_after_append_at_clock_zero:
  "length (filter valid_entry (operationLog history_with_gap)) = 3
   \<and> getShortLogLine 0 history_with_gap = ''Button Door 1s ''
   \<and> getShortLogLine 1 history_with_gap = ''Alice Door 1s ''
   \<and> getShortLogLine 2 history_with_gap = []
   \<and> getShortLogLine 3 history_with_gap = ''Alice Door 3s ''
   \<and> getFormattedLog history_with_gap
       = log_header
         @ bullet @ '' '' @ emoji_door @ '' DOOR OPENED'' @ nl
           @ ''  '' @ emoji_user @ '' Button'' @ nl @ ''  '' @ emoji_clock @ '' 1 seconds ago'' @ nl @ nl
         @ bullet @ '' '' @ emoji_door @ '' DOOR OPENED'' @ nl
           @ ''  '' @ emoji_user @ '' Alice'' @ nl @ ''  '' @ emoji_clock @ '' 1 seconds ago'' @ nl @ nl
         @ bullet @ '' '' @ emoji_bulb @ '' LIGHT ON'' @ nl
           @ ''  '' @ emoji_user @ '' Bob'' @ nl @ ''  '' @ emoji_clock @ '' 2 seconds ago'' @ nl @ nl"
proof -
  note lg = history_with_gap_log
  have n: "length (filter valid_entry (take 5 (operationLog history_with_gap))) = 3"
    by (simp add: lg valid_entry_iff empty_entry_def)
  have up: "[0..<3] = [0, 1, 2]" by (simp add: upt_rec)
  have ago: "formatTimeAgoShort 1100 = ''1s ''" "formatTimeAgoShort 1500 = ''1s ''"
      "formatTimeAgoShort (- 4294964296) = ''3s ''"
      "formatTimeAgo 1100 = ''1 seconds ago''" "formatTimeAgo 1500 = ''1 seconds ago''"
      "formatTimeAgo 2000 = ''2 seconds ago''"
    by (simp_all add: formatTimeAgoShort_def formatTimeAgo_def String_nat.simps digit_char_def)
  show ?thesis
  proof (intro conjI)
    show "length (filter valid_entry (operationLog history_with_gap)) = 3"
      by (simp add: lg valid_entry_iff empty_entry_def)
    show "getShortLogLine 0 history_with_gap = ''Button Door 1s ''"
      by (simp add: getShortLogLine_def lg ago)
    show "getShortLogLine 1 history_with_gap = ''Alice Door 1s ''"
      by (simp add: getShortLogLine_def lg ago)
    show "getShortLogLine 2 history_with_gap = []"
      by (simp add: getShortLogLine_def lg)
    show "getShortLogLine 3 history_with_gap = ''Alice Door 3s ''"
      by (simp add: getShortLogLine_def lg ago)
    show "getFormattedLog history_with_gap
       = log_header
         @ bullet @ '' '' @ emoji_door @ '' DOOR OPENED'' @ nl
           @ ''  '' @ emoji_user @ '' Button'' @ nl @ ''  '' @ emoji_clock @ '' 1 seconds ago'' @ nl @ nl
         @ bullet @ '' '' @ emoji_door @ '' DOOR OPENED'' @ nl
           @ ''  '' @ emoji_user @ '' Alice'' @ nl @ ''  '' @ emoji_clock @ '' 1 seconds ago'' @ nl @ nl
         @ bullet @ '' '' @ emoji_bulb @ '' LIGHT ON'' @ nl
           @ ''  '' @ emoji_user @ '' Bob'' @ nl @ ''  '' @ emoji_clock @ '' 2 seconds ago'' @ nl @ nl"
      unfolding getFormattedLog_def Let_def n up
      by (simp add: lg log_block_def log_header_def ago)
  qed
qed


lemma log_block_door:
  "operation e \<noteq> ''LIGHT_ON'' \<Longrightarrow>
   log_block now e
     = bullet @ '' '' @ emoji_door @ '' DOOR OPENED'' @ nl
       @ ''  '' @ emoji_user @ '' '' @ userName e @ nl
       @ ''  '' @ emoji_clock @ '' '' @ formatTimeAgo (now - timestamp e) @ nl @ nl"
  by (simp add: log_block_def Let_def)

lemma getFormattedLog_cong:
  assumes "clock s = clock s'"
      and "map valid_entry (operationLog s) = map valid_entry (operationLog s')"
      and "map (log_block (clock s)) (operationLog s) = map (log_block (clock s)) (operationLog s')"
  shows "getFormattedLog s = getFormattedLog s'"
proof -
  let ?xs = "operationLog s" and ?ys = "operationLog s'"
  have len: "length ?xs = length ?ys"
    using assms(2) by (rule map_eq_imp_length_eq)
  have "length (filter valid_entry (take 5 ?xs)) = length (filter id (map valid_entry (take 5 ?xs)))"
    by (simp add: filter_map comp_def)
  also have "map valid_entry (take 5 ?xs) = map valid_entry (take 5 ?ys)"
    using assms(2) by (simp add: take_map [symmetric])
  also have "length (filter id (map valid_entry (take 5 ?ys))) = length (filter valid_entry (take 5 ?ys))"
    by (simp add: filter_map comp_def)
  finally have n: "length (filter valid_entry (take 5 ?xs)) = length (filter valid_entry (take 5 ?ys))" .
  define k where "k = length (filter valid_entry (take 5 ?ys))"
  have "k \<le> length (take 5 ?ys)" unfolding k_def by (rule length_filter_le)
  then have kle: "k \<le> length ?ys" by simp
  have blocks: "map (\<lambda>i. log_block (clock s) (?xs ! i)) [0..<k] = map (\<lambda>i. log_block (clock s) (?ys ! i)) [0..<k]"
  proof (rule map_cong [OF refl])
    fix i assume "i \<in> set [0..<k]"
    then have i: "i < length ?ys" using kle by simp
    have "log_block (clock s) (?xs ! i) = map (log_block (clock s)) ?xs ! i"
      using i len by simp
    also have "\<dots> = map (log_block (clock s)) ?ys ! i" by (simp only: assms(3))
    also have "\<dots> = log_block (clock s) (?ys ! i)" using i by simp
    finally show "log_block (clock s) (?xs ! i) = log_block (clock s) (?ys ! i)" .
  qed
  show ?thesis
    unfolding getFormattedLog_def Let_def n k_def [symmetric] blocks assms(1) [symmetric] ..
qed

lemma log_block_entry_block:
  "log_block now e =
     (if operation e = ''LIGHT_ON''
      then entry_block emoji_bulb ''LIGHT ON'' (userName e) (formatTimeAgo (now - timestamp e))
      else entry_block emoji_door ''DOOR OPENED'' (userName e) (formatTimeAgo (now - timestamp e)))"
  by (simp add: log_block_def Let_def entry_block_def)

lemma after_button_press_log:
  shows "operationLog after_button_press
           = [\<lparr>timestamp = 5000, chatId = 0, operation = ''DOOR_BUTTON'', userName = ''Button''\<rparr>,
              empty_entry, empty_entry, empty_entry, empty_entry]"
    and "clock after_button_press = 6250"
proof -
  let ?s = "(startup_state [])\<lparr>clock := 5000\<rparr>"
  have s1: "buttonISR ?s = ?s\<lparr>buttonInterruptFlag := True, lastInterruptTime := 5000\<rparr>"
    by (simp add: buttonISR_def Let_def startup_state_def interruptDebounceDelay_def)
  let ?o = "openDoor (?s\<lparr>lastInterruptTime := 5000, buttonInterruptFlag := False\<rparr>)"
  have s2: "after_button_press
      = updateDisplay (confirmationBeep (logOperation 0 ''DOOR_BUTTON'' ''Button'' ?o))"
    unfolding after_button_press_def s1
    by (simp add: checkButtonOpenDoor_def openDoorFromButton_def Let_def)
  have o: "length (operationLog ?o) = 5" "clock ?o = 5000"
      "butlast (operationLog ?o) = [empty_entry, empty_entry, empty_entry, empty_entry]"
    by (simp_all add: openDoor_def startup_state_def replicate_5)
  show "operationLog after_button_press
           = [\<lparr>timestamp = 5000, chatId = 0, operation = ''DOOR_BUTTON'', userName = ''Button''\<rparr>,
              empty_entry, empty_entry, empty_entry, empty_entry]"
    unfolding s2 by (simp add: logOperation_operationLog [OF o(1)] o(2) o(3))
  show "clock after_button_press = 6250"
    unfolding s2 by (simp add: o(2))
qed

text \<open>
  Claim C10. The detailed log is the heading followed, for each of the leading slots it
  renders, by one block; the block of every entry whose operation is not \<open>LIGHT_ON\<close> carries
  the door emoji and the label \<open>DOOR OPENED\<close>, whatever else the operation is. Writing
  \<open>OPEN_DOOR\<close> (what the remote commands log) for \<open>DOOR_BUTTON\<close> in any slot leaves the whole
  text unchanged. After one press of the physical button the detailed log reads
  \<open>DOOR OPENED\<close>, \<open>Button\<close>, and is the text of a remote opening by a user of that name.
\<close>

theorem detailed_log_labels_non_light_entries_door_opened:
  "getFormattedLog s =
     (let n = length (filter valid_entry (take 5 (operationLog s)))
      in log_header @
         (if n = 0 then ''No operations recorded.''
          else concat (map (\<lambda>i. if operation (operationLog s ! i) = ''LIGHT_ON''
                  then entry_block emoji_bulb ''LIGHT ON'' (userName (operationLog s ! i))
                         (formatTimeAgo (clock s - timestamp (operationLog s ! i)))
                  else entry_block emoji_door ''DOOR OPENED'' (userName (operationLog s ! i))
                         (formatTimeAgo (clock s - timestamp (operationLog s ! i))))
                [0..<n])))
   \<and> getFormattedLog (s\<lparr>operationLog := (operationLog s)[i := e\<lparr>operation := ''DOOR_BUTTON''\<rparr>]\<rparr>)
       = getFormattedLog (s\<lparr>operationLog := (operationLog s)[i := e\<lparr>operation := ''OPEN_DOOR''\<rparr>]\<rparr>)
   \<and> getFormattedLog after_button_press
       = log_header @ entry_block emoji_door ''DOOR OPENED'' ''Button'' ''1 seconds ago''
   \<and> getFormattedLog after_button_press
       = getFormattedLog (after_button_press\<lparr>operationLog :=
           [\<lparr>timestamp = 5000, chatId = 111, operation = ''OPEN_DOOR'', userName = ''Button''\<rparr>,
            empty_entry, empty_entry, empty_entry, empty_entry]\<rparr>)"
proof (intro conjI)
  show "getFormattedLog s =
     (let n = length (filter valid_entry (take 5 (operationLog s)))
      in log_header @
         (if n = 0 then ''No operations recorded.''
          else concat (map (\<lambda>i. if operation (operationLog s ! i) = ''LIGHT_ON''
                  then entry_block emoji_bulb ''LIGHT ON'' (userName (operationLog s ! i))
                         (formatTimeAgo (clock s - timestamp (operationLog s ! i)))
                  else entry_block emoji_door ''DOOR OPENED'' (userName (operationLog s ! i))
                         (formatTimeAgo (clock s - timestamp (operationLog s ! i))))
                [0..<n])))"
    by (simp add: getFormattedLog_def Let_def log_header_def log_block_entry_block)
next
  have same: "log_block now (e\<lparr>operation := ''DOOR_BUTTON''\<rparr>) = log_block now (e\<lparr>operation := ''OPEN_DOOR''\<rparr>)"
    for now by (simp add: log_block_def Let_def)
  have v: "valid_entry (e\<lparr>operation := ''DOOR_BUTTON''\<rparr>) = valid_entry (e\<lparr>operation := ''OPEN_DOOR''\<rparr>)"
    by (simp add: valid_entry_def)
  show "getFormattedLog (s\<lparr>operationLog := (operationLog s)[i := e\<lparr>operation := ''DOOR_BUTTON''\<rparr>]\<rparr>)
       = getFormattedLog (s\<lparr>operationLog := (operationLog s)[i := e\<lparr>operation := ''OPEN_DOOR''\<rparr>]\<rparr>)"
    by (rule getFormattedLog_cong) (simp_all add: map_update v same)
next
  note lg = after_button_press_log
  have n: "length (filter valid_entry (take 5 (operationLog after_button_press))) = 1"
    by (simp add: lg valid_entry_iff empty_entry_def)
  have ago: "formatTimeAgo 1250 = ''1 seconds ago''"
    by (simp add: formatTimeAgo_def String_nat.simps digit_char_def)
  show A: "getFormattedLog after_button_press
       = log_header @ entry_block emoji_door ''DOOR OPENED'' ''Button'' ''1 seconds ago''"
    unfolding getFormattedLog_def Let_def n
    by (simp add: lg log_block_entry_block log_header_def ago)
  let ?t = "after_button_press\<lparr>operationLog :=
           [\<lparr>timestamp = 5000, chatId = 111, operation = ''OPEN_DOOR'', userName = ''Button''\<rparr>,
            empty_entry, empty_entry, empty_entry, empty_entry]\<rparr>"
  have n': "length (filter valid_entry (take 5 (operationLog ?t))) = 1"
    by (simp add: valid_entry_iff empty_entry_def)
  have B: "getFormattedLog ?t
       = log_header @ entry_block emoji_door ''DOOR OPENED'' ''Button'' ''1 seconds ago''"
    unfolding getFormattedLog_def Let_def n'
    by (simp add: lg log_block_entry_block log_header_def ago)
  show "getFormattedLog after_button_press = getFormattedLog ?t"
    unfolding A B ..
qed

end
